theory Spec2Isabelle
  imports Main "HOL-Library.Sublist"
begin

section \<open>Python values, exceptions and library functions\<close>

text \<open>
  The three scripts (\<^verbatim>\<open>misp_backfill_v9_final_version.py\<close>,
  \<^verbatim>\<open>misp_sync_v9_final_version.py\<close>, \<^verbatim>\<open>misp_geo_backfill_v9_final_version.py\<close>)
  work on decoded JSON: dictionaries, lists, strings, integers, booleans and \<^verbatim>\<open>None\<close>.
  A dictionary is an association list whose first binding of a key is the one looked up.
  JSON numbers with a fraction are not part of the model.
\<close>

datatype jv = JNull | JBool bool | JInt int | JStr string | JList "jv list" | JObj "(string \<times> jv) list"

datatype error =
  KeyError | ValueError | TypeError | AttributeError | HTTPError | DatabaseError

text \<open>A point in time, in microseconds since the epoch (the resolution of Python's datetime).\<close>

type_synonym datetime = int

text \<open>
  Library functions of Python that the scripts call and that are not code of the
  repository are parameters of the model: \<^verbatim>\<open>int(s)\<close> on a string (\<open>None\<close> where
  it raises ValueError), \<^verbatim>\<open>datetime.fromtimestamp(n, tz=utc)\<close>,
  \<^verbatim>\<open>datetime.fromtimestamp(n/1e6, tz=utc)\<close> and \<^verbatim>\<open>datetime.fromisoformat(s)\<close>
  (\<open>None\<close> where they raise), \<^verbatim>\<open>isoformat()\<close>, \<^verbatim>\<open>str(v)\<close> as an f-string
  formats a value, and the order in which a set of integers is iterated.
\<close>

record pylib =
  str_to_int :: "string \<Rightarrow> int option"
  fromtimestamp :: "int \<Rightarrow> datetime option"
  fromtimestamp_micro :: "int \<Rightarrow> datetime option"
  fromisoformat :: "string \<Rightarrow> datetime option"
  isoformat :: "datetime \<Rightarrow> string"
  py_str :: "jv \<Rightarrow> string"
  set_order :: "int list \<Rightarrow> int list"

definition bindE :: "error + 'a \<Rightarrow> ('a \<Rightarrow> error + 'b) \<Rightarrow> error + 'b" where
  "bindE m f = (case m of Inl e \<Rightarrow> Inl e | Inr x \<Rightarrow> f x)"

primrec mapE :: "('a \<Rightarrow> error + 'b) \<Rightarrow> 'a list \<Rightarrow> error + 'b list" where
  "mapE f [] = Inr []"
| "mapE f (x # xs) =
     (case f x of Inl e \<Rightarrow> Inl e
      | Inr y \<Rightarrow> (case mapE f xs of Inl e \<Rightarrow> Inl e | Inr ys \<Rightarrow> Inr (y # ys)))"

text \<open>Truth value of a Python object, as \<^verbatim>\<open>if v\<close> and \<^verbatim>\<open>not v\<close> test it.\<close>

fun truthy :: "jv \<Rightarrow> bool" where
  "truthy JNull = False"
| "truthy (JBool b) = b"
| "truthy (JInt i) = (i \<noteq> 0)"
| "truthy (JStr s) = (s \<noteq> [])"
| "truthy (JList xs) = (xs \<noteq> [])"
| "truthy (JObj kvs) = (kvs \<noteq> [])"

text \<open>\<^verbatim>\<open>d[k]\<close> with a string key: KeyError on a dictionary without the key, TypeError on
  every other object.\<close>

fun py_getitem :: "jv \<Rightarrow> string \<Rightarrow> error + jv" where
  "py_getitem (JObj kvs) k = (case map_of kvs k of None \<Rightarrow> Inl KeyError | Some v \<Rightarrow> Inr v)"
| "py_getitem _ k = Inl TypeError"

text \<open>\<^verbatim>\<open>d.get(k, dflt)\<close>: only dictionaries have the method.\<close>

fun py_get :: "jv \<Rightarrow> string \<Rightarrow> jv \<Rightarrow> error + jv" where
  "py_get (JObj kvs) k dflt = (case map_of kvs k of None \<Rightarrow> Inr dflt | Some v \<Rightarrow> Inr v)"
| "py_get _ k dflt = Inl AttributeError"

text \<open>\<^verbatim>\<open>int(v)\<close>.\<close>

fun py_int :: "pylib \<Rightarrow> jv \<Rightarrow> error + int" where
  "py_int L (JInt i) = Inr i"
| "py_int L (JBool b) = Inr (if b then 1 else 0)"
| "py_int L (JStr s) = (case str_to_int L s of None \<Rightarrow> Inl ValueError | Some i \<Rightarrow> Inr i)"
| "py_int L _ = Inl TypeError"

text \<open>The elements a \<^verbatim>\<open>for\<close> loop (or \<^verbatim>\<open>list.extend\<close>) draws from an object.\<close>

fun py_iter :: "jv \<Rightarrow> error + jv list" where
  "py_iter (JList xs) = Inr xs"
| "py_iter (JObj kvs) = Inr (map (\<lambda>kv. JStr (fst kv)) kvs)"
| "py_iter (JStr s) = Inr (map (\<lambda>c. JStr [c]) s)"
| "py_iter _ = Inl TypeError"

text \<open>\<^verbatim>\<open>v.replace("\n", " ")\<close>: only strings have the method.\<close>

fun py_replace_nl :: "jv \<Rightarrow> error + string" where
  "py_replace_nl (JStr s) = Inr (map (\<lambda>c. if c = CHR 0x0A then CHR '' '' else c) s)"
| "py_replace_nl _ = Inl AttributeError"

text \<open>\<^verbatim>\<open>", ".join(parts)\<close>.\<close>

fun join_comma :: "string list \<Rightarrow> string" where
  "join_comma [] = []"
| "join_comma [s] = s"
| "join_comma (s # t # ss) = s @ '', '' @ join_comma (t # ss)"

subsection \<open>The helpers \<^verbatim>\<open>to_dt\<close> and \<^verbatim>\<open>parse_ts\<close>\<close>

definition to_dt :: "pylib \<Rightarrow> jv \<Rightarrow> datetime option" where
  "to_dt L ts = (case py_int L ts of Inl e \<Rightarrow> None | Inr n \<Rightarrow> fromtimestamp L n)"

definition parse_ts :: "pylib \<Rightarrow> jv \<Rightarrow> datetime option" where
  "parse_ts L v =
     (if \<not> truthy v then None
      else (case (case py_int L v of Inl e \<Rightarrow> None | Inr n \<Rightarrow> fromtimestamp_micro L n) of
              Some d \<Rightarrow> Some d
            | None \<Rightarrow> (case v of JStr s \<Rightarrow> fromisoformat L s | _ \<Rightarrow> None)))"


section \<open>The warehouse\<close>

text \<open>
  The four tables, as lists of rows. A parameter dictionary of \<^verbatim>\<open>EVT_SQL\<close> carries the
  event id as the script passes it (\<^verbatim>\<open>e["id"]\<close>, undecoded); the row stored has the
  integer the column holds. Every other event column keeps the value handed to the driver.
\<close>

record 'i event_rec =
  e_id :: 'i
  e_org_id :: jv
  e_info :: jv
  e_uuid :: jv
  e_date :: jv
  e_attribute_count :: jv
  e_last_modified :: "datetime option"
  e_threat_level_id :: jv
  e_publish_timestamp :: "datetime option"
  e_feed_name :: jv
  e_orgc_name :: jv

type_synonym event_row = "int event_rec"

record corr_row =
  attr_id :: int
  related_attr_id :: int
  related_event_id :: int
  relationship_type :: jv
  c_first_seen :: "datetime option"
  c_last_seen :: "datetime option"
  c_comment :: jv

text \<open>
  A row of \<^verbatim>\<open>attributes_minimal\<close>, in the order of \<^verbatim>\<open>ATTR_COLS\<close>. A cell of type
  \<open>string option\<close> is \<open>None\<close> where the script writes the null sentinel \<^verbatim>\<open>\N\<close>.
  The CSV text staged in the temporary file is not modelled: a row holds, cell by cell,
  what \<^verbatim>\<open>csv.writer\<close> is given, a text cell as the text the writer makes of it.
\<close>

record attr_row =
  a_id :: int
  a_event_id :: int
  a_category :: string
  a_type :: string
  a_value :: string
  a_to_ids :: bool
  a_uuid :: string
  a_created_ts :: "string option"
  a_comment :: string
  a_first_seen :: "string option"
  a_last_seen :: "string option"
  country_name :: "string option"
  country_code :: "string option"
  region_name :: "string option"
  city :: "string option"
  related_event_info :: string
  event_info :: string
  event_galaxy_names :: string

record db =
  events_minimal :: "event_row list"
  attribute_correlations :: "corr_row list"
  attributes_minimal :: "attr_row list"
  sync_state :: "(int \<times> datetime option) list"

text \<open>
  A psycopg2 connection: the committed database, the database as the open transaction
  sees it, and the calls made on the connection so far (a \<^verbatim>\<open>COPY\<close> with the rows it
  sent, the other statements with the number of their parameter sets). A script that ends
  by an exception never commits its open transaction, so what it leaves behind is
  \<open>committed\<close>.
\<close>

datatype dbop =
  OpSelectSyncState | OpInsertEvents nat | OpInsertCorrelations nat | OpCopy "attr_row list"
  | OpUpdateSyncState | OpUpdateGeo nat | OpSelectGeo | OpCommit

record conn =
  committed :: db
  working :: db
  oplog :: "dbop list"

definition connect :: "db \<Rightarrow> conn" where
  "connect d = \<lparr>committed = d, working = d, oplog = []\<rparr>"

text \<open>
  The world outside a run of the backfill or the sync script: the platform's answers
  (the decoded body of a response, or the exception raised by the request,
  \<^verbatim>\<open>raise_for_status\<close> or the decoder), the clock, and \<open>db_fault n\<close>, which says
  whether the \<open>n\<close>-th call on the connection raises (a dropped connection, a row the
  server rejects).
\<close>

record world =
  post_attributes_page :: "nat \<Rightarrow> error + jv"
  post_attributes_since :: "int \<Rightarrow> error + jv"
  post_event :: "int \<Rightarrow> error + jv"
  db_fault :: "nat \<Rightarrow> bool"
  now_start :: datetime
  now_commit :: datetime

definition db_call :: "(nat \<Rightarrow> bool) \<Rightarrow> dbop \<Rightarrow> (db \<Rightarrow> db) \<Rightarrow> conn \<Rightarrow> error option \<times> conn" where
  "db_call fault op f c =
     (if fault (length (oplog c)) then (Some DatabaseError, c)
      else (None, c\<lparr>working := f (working c), oplog := oplog c @ [op]\<rparr>))"

definition commit :: "(nat \<Rightarrow> bool) \<Rightarrow> conn \<Rightarrow> error option \<times> conn" where
  "commit fault c =
     (if fault (length (oplog c)) then (Some DatabaseError, c)
      else (None, c\<lparr>committed := working c, oplog := oplog c @ [OpCommit]\<rparr>))"

definition thenDB :: "error option \<times> conn \<Rightarrow> (conn \<Rightarrow> error option \<times> conn) \<Rightarrow> error option \<times> conn" where
  "thenDB r f = (case r of (None, c) \<Rightarrow> f c | (Some e, c) \<Rightarrow> (Some e, c))"

subsection \<open>The statements\<close>

text \<open>\<^verbatim>\<open>EVT_SQL\<close>: \<^verbatim>\<open>INSERT INTO events_minimal ... ON CONFLICT (id) DO NOTHING\<close>.\<close>

definition insert_event :: "event_row \<Rightarrow> event_row list \<Rightarrow> event_row list" where
  "insert_event r tbl = (if e_id r \<in> set (map e_id tbl) then tbl else tbl @ [r])"

text \<open>\<^verbatim>\<open>CORR_SQL\<close>: \<^verbatim>\<open>INSERT INTO attribute_correlations ... ON CONFLICT (attr_id, related_attr_id) DO NOTHING\<close>.\<close>

definition corr_key :: "corr_row \<Rightarrow> int \<times> int" where
  "corr_key r = (attr_id r, related_attr_id r)"

definition insert_corr :: "corr_row \<Rightarrow> corr_row list \<Rightarrow> corr_row list" where
  "insert_corr r tbl = (if corr_key r \<in> set (map corr_key tbl) then tbl else tbl @ [r])"

text \<open>The integer the \<^verbatim>\<open>id\<close> column reads from the parameter: taken to be the one
  \<^verbatim>\<open>int\<close> reads; a parameter without one makes the statement fail.\<close>

definition event_row_of :: "pylib \<Rightarrow> jv event_rec \<Rightarrow> error + event_row" where
  "event_row_of L p =
     (case py_int L (e_id p) of Inl e \<Rightarrow> Inl DatabaseError
      | Inr i \<Rightarrow> Inr \<lparr>e_id = i, e_org_id = e_org_id p, e_info = e_info p, e_uuid = e_uuid p,
          e_date = e_date p, e_attribute_count = e_attribute_count p,
          e_last_modified = e_last_modified p, e_threat_level_id = e_threat_level_id p,
          e_publish_timestamp = e_publish_timestamp p, e_feed_name = e_feed_name p,
          e_orgc_name = e_orgc_name p\<rparr>)"

text \<open>
  \<^verbatim>\<open>execute_batch(cur, EVT_SQL, evt_params, page_size=EV_BATCH)\<close>: the statements run in
  the order of the parameter list, all in the open transaction (the pages of
  \<open>EV_BATCH = 500\<close> statements are sent one after the other); nothing is sent for an
  empty list.
\<close>

definition execute_batch_evt :: "pylib \<Rightarrow> world \<Rightarrow> jv event_rec list \<Rightarrow> conn \<Rightarrow> error option \<times> conn" where
  "execute_batch_evt L W ps c =
     (if ps = [] then (None, c)
      else (case mapE (event_row_of L) ps of Inl e \<Rightarrow> (Some e, c)
            | Inr rows \<Rightarrow>
                db_call (db_fault W) (OpInsertEvents (length rows))
                  (\<lambda>d. d\<lparr>events_minimal := fold insert_event rows (events_minimal d)\<rparr>) c))"

definition execute_batch_corr :: "world \<Rightarrow> corr_row list \<Rightarrow> conn \<Rightarrow> error option \<times> conn" where
  "execute_batch_corr W rows c =
     (if rows = [] then (None, c)
      else db_call (db_fault W) (OpInsertCorrelations (length rows))
             (\<lambda>d. d\<lparr>attribute_correlations := fold insert_corr rows (attribute_correlations d)\<rparr>) c)"

text \<open>\<^verbatim>\<open>COPY attributes_minimal (...) FROM STDIN\<close>: the rows are appended; the statement
  names no conflict target.\<close>

definition copy_expert :: "world \<Rightarrow> attr_row list \<Rightarrow> conn \<Rightarrow> error option \<times> conn" where
  "copy_expert W rows c =
     db_call (db_fault W) (OpCopy rows)
       (\<lambda>d. d\<lparr>attributes_minimal := attributes_minimal d @ rows\<rparr>) c"

text \<open>\<^verbatim>\<open>UPDATE sync_state SET last_run = %s WHERE id=1\<close>.\<close>

definition set_last_run :: "datetime \<Rightarrow> (int \<times> datetime option) list \<Rightarrow> (int \<times> datetime option) list" where
  "set_last_run t tbl = map (\<lambda>r. if fst r = 1 then (fst r, Some t) else r) tbl"

definition update_sync_state :: "world \<Rightarrow> conn \<Rightarrow> error option \<times> conn" where
  "update_sync_state W c =
     db_call (db_fault W) OpUpdateSyncState
       (\<lambda>d. d\<lparr>sync_state := set_last_run (now_commit W) (sync_state d)\<rparr>) c"

section \<open>Fetching from the platform\<close>

text \<open>\<^verbatim>\<open>resp.json().get("response", {}).get("Attribute", [])\<close>.\<close>

definition attribute_block :: "jv \<Rightarrow> error + jv" where
  "attribute_block body = bindE (py_get body ''response'' (JObj [])) (\<lambda>r. py_get r ''Attribute'' (JList []))"

text \<open>The block of the page \<open>page\<close>: the request (\<open>post\<close>, with \<^verbatim>\<open>limit\<close> at \<open>ATTR_PAGE\<close>)
  and what the script reads of its answer.\<close>

definition page_block :: "(nat \<Rightarrow> error + jv) \<Rightarrow> nat \<Rightarrow> error + jv" where
  "page_block post page = bindE (post page) attribute_block"

text \<open>
  PHASE 1 of the backfill: the \<^verbatim>\<open>while True\<close> loop over pages. The loop has no bound
  of its own, so its result is an option: \<open>None\<close> is a run that never leaves the loop.
\<close>

partial_function (option) fetch_pages :: "(nat \<Rightarrow> error + jv) \<Rightarrow> nat \<Rightarrow> jv list \<Rightarrow> (error + jv list) option" where
  "fetch_pages post page attrs =
     (case page_block post page of
        Inl e \<Rightarrow> Some (Inl e)
      | Inr block \<Rightarrow>
          if \<not> truthy block then Some (Inr attrs)
          else (case py_iter block of
                  Inl e \<Rightarrow> Some (Inl e)
                | Inr xs \<Rightarrow> fetch_pages post (page + 1) (attrs @ xs)))"

definition fetch_all_attributes :: "world \<Rightarrow> (error + jv list) option" where
  "fetch_all_attributes W = fetch_pages (post_attributes_page W) 1 []"

text \<open>\<^verbatim>\<open>fetch_ev\<close> (\<^verbatim>\<open>fe\<close> in the sync script) and the pool that maps it over the event ids:
  the results come in the order of the ids, and the first request that raises ends the run.\<close>

definition fetch_ev :: "world \<Rightarrow> int \<Rightarrow> error + jv" where
  "fetch_ev W eid = bindE (post_event W eid) (\<lambda>body. py_get body ''Event'' (JObj []))"

text \<open>A dictionary built by a comprehension: a later binding of a key replaces an earlier one.\<close>

definition dict_of :: "('k \<times> 'v) list \<Rightarrow> 'k \<Rightarrow> 'v option" where
  "dict_of kvs = map_of (rev kvs)"

definition id_value_pair :: "pylib \<Rightarrow> jv \<Rightarrow> error + int \<times> jv" where
  "id_value_pair L a =
     bindE (py_getitem a ''id'') (\<lambda>raw. bindE (py_int L raw) (\<lambda>i.
     bindE (py_get a ''value'' (JStr [])) (\<lambda>v. Inr (i, v))))"

definition int_field :: "pylib \<Rightarrow> string \<Rightarrow> jv \<Rightarrow> error + int" where
  "int_field L k a = bindE (py_getitem a k) (py_int L)"

definition event_pair :: "pylib \<Rightarrow> jv \<Rightarrow> error + int \<times> jv" where
  "event_pair L e = bindE (int_field L ''id'' e) (\<lambda>i. Inr (i, e))"

section \<open>Events and correlations\<close>

definition evt_param :: "pylib \<Rightarrow> jv \<Rightarrow> error + jv event_rec" where
  "evt_param L e =
     bindE (py_getitem e ''id'') (\<lambda>i.
     bindE (py_get e ''org_id'' JNull) (\<lambda>org.
     bindE (py_get e ''info'' JNull) (\<lambda>inf.
     bindE (py_get e ''uuid'' JNull) (\<lambda>uu.
     bindE (py_get e ''date'' JNull) (\<lambda>dt.
     bindE (py_get e ''attribute_count'' JNull) (\<lambda>ac.
     bindE (py_get e ''timestamp'' JNull) (\<lambda>ts.
     bindE (py_get e ''threat_level_id'' JNull) (\<lambda>tl.
     bindE (py_get e ''publish_timestamp'' JNull) (\<lambda>pts.
     bindE (py_get e ''Feed'' (JObj [])) (\<lambda>feed.
     bindE (py_get feed ''name'' JNull) (\<lambda>fname.
     bindE (py_get e ''Orgc'' (JObj [])) (\<lambda>orgc.
     bindE (py_get orgc ''name'' JNull) (\<lambda>oname.
       Inr \<lparr>e_id = i, e_org_id = org, e_info = inf, e_uuid = uu, e_date = dt,
            e_attribute_count = ac, e_last_modified = to_dt L ts, e_threat_level_id = tl,
            e_publish_timestamp = to_dt L pts, e_feed_name = fname,
            e_orgc_name = oname\<rparr>)))))))))))))"

definition evt_params :: "pylib \<Rightarrow> jv list \<Rightarrow> error + jv event_rec list" where
  "evt_params L evs = mapE (evt_param L) evs"

text \<open>The dictionary appended to \<^verbatim>\<open>corr_params\<close> for the related-attribute entry \<open>r\<close> of
  the attribute with id \<open>aid\<close>.\<close>

definition corr_param :: "pylib \<Rightarrow> int \<Rightarrow> jv \<Rightarrow> error + corr_row" where
  "corr_param L aid r =
     bindE (int_field L ''id'' r) (\<lambda>rid.
     bindE (int_field L ''event_id'' r) (\<lambda>rev.
     bindE (py_get r ''object_relation'' (JStr [])) (\<lambda>rel.
     bindE (py_get r ''first_seen'' JNull) (\<lambda>fs.
     bindE (py_get r ''last_seen'' JNull) (\<lambda>ls.
     bindE (py_get r ''comment'' (JStr [])) (\<lambda>cm.
       Inr \<lparr>attr_id = aid, related_attr_id = rid, related_event_id = rev,
            relationship_type = rel, c_first_seen = parse_ts L fs,
            c_last_seen = parse_ts L ls, c_comment = cm\<rparr>))))))"

text \<open>\<^verbatim>\<open>a.get("RelatedAttribute", [])\<close>, as the \<^verbatim>\<open>for\<close> loop iterates it.\<close>

definition related_attributes :: "jv \<Rightarrow> error + jv list" where
  "related_attributes a = bindE (py_get a ''RelatedAttribute'' (JList [])) py_iter"

text \<open>One turn of the outer loop of PHASE 3b: the entries appended for the attribute \<open>a\<close>.\<close>

definition corr_params_of :: "pylib \<Rightarrow> jv \<Rightarrow> error + corr_row list" where
  "corr_params_of L a =
     bindE (int_field L ''id'' a) (\<lambda>aid.
     bindE (related_attributes a) (\<lambda>rs. mapE (corr_param L aid) rs))"

definition corr_params :: "pylib \<Rightarrow> jv list \<Rightarrow> error + corr_row list" where
  "corr_params L attrs = bindE (mapE (corr_params_of L) attrs) (\<lambda>xss. Inr (concat xss))"

section \<open>Staging and loading attribute rows\<close>

text \<open>The text \<^verbatim>\<open>f"{v}"\<close> puts in an f-string: a string as it is, any other value as
  \<^verbatim>\<open>str\<close> prints it.\<close>

definition fmt :: "pylib \<Rightarrow> jv \<Rightarrow> string" where
  "fmt L v = (case v of JStr s \<Rightarrow> s | _ \<Rightarrow> py_str L v)"

text \<open>\<^verbatim>\<open>event_map.get(k, {})\<close> and \<^verbatim>\<open>id_to_value.get(k, "")\<close>.\<close>

definition dict_get :: "('k \<Rightarrow> jv option) \<Rightarrow> 'k \<Rightarrow> jv \<Rightarrow> jv" where
  "dict_get m k dflt = (case m k of None \<Rightarrow> dflt | Some v \<Rightarrow> v)"

text \<open>The text \<^verbatim>\<open>csv.writer\<close> writes for a value: nothing for \<^verbatim>\<open>None\<close>, a string as
  it is, \<^verbatim>\<open>str(v)\<close> for any other value.\<close>

definition csv_cell :: "pylib \<Rightarrow> jv \<Rightarrow> string" where
  "csv_cell L v = (case v of JNull \<Rightarrow> [] | JStr s \<Rightarrow> s | _ \<Rightarrow> py_str L v)"

text \<open>One element of \<^verbatim>\<open>rel_parts\<close>: \<^verbatim>\<open>f"{rel_evt}:{desc}|{val}"\<close>.\<close>

definition rel_part :: "pylib \<Rightarrow> (int \<Rightarrow> jv option) \<Rightarrow> (int \<Rightarrow> jv option) \<Rightarrow> jv \<Rightarrow> error + string" where
  "rel_part L event_map id_to_value r =
     bindE (int_field L ''id'' r) (\<lambda>rid.
     bindE (int_field L ''event_id'' r) (\<lambda>rel_evt.
     bindE (py_get (dict_get event_map rel_evt (JObj [])) ''info'' (JStr [])) (\<lambda>inf.
     bindE (py_replace_nl inf) (\<lambda>d.
       Inr (fmt L (JInt rel_evt) @ '':'' @ take 50 d @ ''|''
              @ fmt L (dict_get id_to_value rid (JStr [])))))))"

definition as_str :: "jv \<Rightarrow> error + string" where
  "as_str v = (case v of JStr s \<Rightarrow> Inr s | _ \<Rightarrow> Inl TypeError)"

text \<open>\<^verbatim>\<open>", ".join(g.get("name") for g in evt_obj.get("Galaxy", []))\<close>: the names are
  collected first, then joined, and every one of them has to be a string.\<close>

definition galaxy_names :: "jv \<Rightarrow> error + string" where
  "galaxy_names evt_obj =
     bindE (py_get evt_obj ''Galaxy'' (JList [])) (\<lambda>gs.
     bindE (py_iter gs) (\<lambda>gl.
     bindE (mapE (\<lambda>g. py_get g ''name'' JNull) gl) (\<lambda>names.
     bindE (mapE as_str names) (\<lambda>ss. Inr (join_comma ss)))))"

text \<open>\<^verbatim>\<open>to_dt(a.get("timestamp")).isoformat() if a.get("timestamp") else r"\N"\<close>: a
  timestamp that is true and that \<^verbatim>\<open>to_dt\<close> cannot read makes \<^verbatim>\<open>None.isoformat()\<close>
  raise.\<close>

definition created_ts_cell :: "pylib \<Rightarrow> jv \<Rightarrow> error + string option" where
  "created_ts_cell L ts =
     (if truthy ts
      then (case to_dt L ts of None \<Rightarrow> Inl AttributeError | Some d \<Rightarrow> Inr (Some (isoformat L d)))
      else Inr None)"

text \<open>The row \<^verbatim>\<open>write_csv\<close> writes for the attribute \<open>a\<close> (the body of its loop).\<close>

definition csv_row :: "pylib \<Rightarrow> (int \<Rightarrow> jv option) \<Rightarrow> (int \<Rightarrow> jv option) \<Rightarrow> jv \<Rightarrow> error + attr_row" where
  "csv_row L event_map id_to_value a =
     bindE (int_field L ''id'' a) (\<lambda>aid.
     bindE (int_field L ''event_id'' a) (\<lambda>ev.
     bindE (py_get a ''first_seen'' JNull) (\<lambda>fsv.
     bindE (py_get a ''last_seen'' JNull) (\<lambda>lsv.
     bindE (related_attributes a) (\<lambda>rs.
     bindE (mapE (rel_part L event_map id_to_value) rs) (\<lambda>rel_parts.
     bindE (py_get (dict_get event_map ev (JObj [])) ''info'' (JStr [])) (\<lambda>inf.
     bindE (py_replace_nl inf) (\<lambda>einfo.
     bindE (galaxy_names (dict_get event_map ev (JObj []))) (\<lambda>gnames.
     bindE (py_get a ''category'' JNull) (\<lambda>cat.
     bindE (py_get a ''type'' JNull) (\<lambda>typ.
     bindE (py_get a ''value'' (JStr [])) (\<lambda>v.
     bindE (py_replace_nl v) (\<lambda>val.
     bindE (py_get a ''to_ids'' (JBool False)) (\<lambda>tid.
     bindE (py_get a ''uuid'' JNull) (\<lambda>uu.
     bindE (py_get a ''timestamp'' JNull) (\<lambda>ts.
     bindE (created_ts_cell L ts) (\<lambda>cts.
     bindE (py_get a ''comment'' (JStr [])) (\<lambda>cmv.
     bindE (py_replace_nl cmv) (\<lambda>cm.
       Inr \<lparr>a_id = aid, a_event_id = ev, a_category = csv_cell L cat, a_type = csv_cell L typ, a_value = val,
            a_to_ids = truthy tid, a_uuid = csv_cell L uu, a_created_ts = cts, a_comment = cm,
            a_first_seen = map_option (isoformat L) (parse_ts L fsv),
            a_last_seen = map_option (isoformat L) (parse_ts L lsv),
            country_name = None, country_code = None, region_name = None, city = None,
            related_event_info = join_comma rel_parts, event_info = einfo,
            event_galaxy_names = gnames\<rparr>)))))))))))))))))))"

definition write_csv :: "pylib \<Rightarrow> (int \<Rightarrow> jv option) \<Rightarrow> (int \<Rightarrow> jv option) \<Rightarrow> jv list \<Rightarrow> error + attr_row list" where
  "write_csv L event_map id_to_value rows = mapE (csv_row L event_map id_to_value) rows"

text \<open>\<^verbatim>\<open>range(start, stop, step)\<close> for a step that is not negative; Python refuses the
  step 0, which \<open>load_attributes\<close> below checks before it calls this function.\<close>

function py_range :: "nat \<Rightarrow> nat \<Rightarrow> nat \<Rightarrow> nat list" where
  "py_range start stop step =
     (if step = 0 \<or> stop \<le> start then [] else start # py_range (start + step) stop step)"
  by pat_completeness auto
termination
  by (relation "measure (\<lambda>(start, stop, step). stop - start)") auto

text \<open>The slices \<^verbatim>\<open>xs[start:start+n]\<close> for \<open>start\<close> in \<^verbatim>\<open>range(0, len(xs), n)\<close>: the
  chunks of PHASE 4 (\<open>n = CSV_CHUNK\<close>) and the batches of the geo script
  (\<open>n = BATCH_SIZE\<close>).\<close>

definition chunked :: "nat \<Rightarrow> 'a list \<Rightarrow> 'a list list" where
  "chunked n xs = map (\<lambda>start. take n (drop start xs)) (py_range 0 (length xs) n)"

text \<open>The body of the loop of PHASE 4, for the chunks still to load: stage the chunk,
  copy it, commit.\<close>

fun load_chunks :: "pylib \<Rightarrow> world \<Rightarrow> (int \<Rightarrow> jv option) \<Rightarrow> (int \<Rightarrow> jv option) \<Rightarrow> jv list list \<Rightarrow> conn \<Rightarrow> error option \<times> conn" where
  "load_chunks L W event_map id_to_value [] c = (None, c)"
| "load_chunks L W event_map id_to_value (chunk # rest) c =
     (case write_csv L event_map id_to_value chunk of
        Inl e \<Rightarrow> (Some e, c)
      | Inr rows \<Rightarrow>
          (case copy_expert W rows c of
             (Some e, c1) \<Rightarrow> (Some e, c1)
           | (None, c1) \<Rightarrow>
               (case commit (db_fault W) c1 of
                  (Some e, c2) \<Rightarrow> (Some e, c2)
                | (None, c2) \<Rightarrow> load_chunks L W event_map id_to_value rest c2)))"

definition load_attributes :: "pylib \<Rightarrow> world \<Rightarrow> nat \<Rightarrow> (int \<Rightarrow> jv option) \<Rightarrow> (int \<Rightarrow> jv option) \<Rightarrow> jv list \<Rightarrow> conn \<Rightarrow> error option \<times> conn" where
  "load_attributes L W csv_chunk event_map id_to_value attrs c =
     (if csv_chunk = 0 then (Some ValueError, c)
      else load_chunks L W event_map id_to_value (chunked csv_chunk attrs) c)"

section \<open>The run, from PHASE 2 on\<close>

text \<open>
  \<^verbatim>\<open>id_to_value\<close>, \<^verbatim>\<open>evt_ids\<close>, the events fetched for them and \<^verbatim>\<open>event_map\<close>, built in
  this order. The pool returns the events in the order of the ids, and the first request
  that raises ends the run.
\<close>

definition prepare :: "pylib \<Rightarrow> world \<Rightarrow> jv list \<Rightarrow> error + (int \<Rightarrow> jv option) \<times> jv list \<times> (int \<Rightarrow> jv option)" where
  "prepare L W attrs =
     bindE (mapE (id_value_pair L) attrs) (\<lambda>kvs.
     bindE (mapE (int_field L ''event_id'') attrs) (\<lambda>evt_ids.
     bindE (mapE (fetch_ev W) (set_order L evt_ids)) (\<lambda>evs.
     bindE (mapE (event_pair L) evs) (\<lambda>eps.
       Inr (dict_of kvs, evs, dict_of eps)))))"

text \<open>PHASE 3a and 3b: the events, then the correlations (\<^verbatim>\<open>execute_batch\<close> is called
  for them only \<^verbatim>\<open>if corr_params\<close>), then the commit of both.\<close>

definition upsert_phase :: "pylib \<Rightarrow> world \<Rightarrow> jv list \<Rightarrow> jv list \<Rightarrow> conn \<Rightarrow> error option \<times> conn" where
  "upsert_phase L W evs attrs c =
     (case evt_params L evs of
        Inl e \<Rightarrow> (Some e, c)
      | Inr eps \<Rightarrow>
          thenDB (execute_batch_evt L W eps c) (\<lambda>c1.
            (case corr_params L attrs of
               Inl e \<Rightarrow> (Some e, c1)
             | Inr cps \<Rightarrow> thenDB (execute_batch_corr W cps c1) (commit (db_fault W)))))"

text \<open>The last two statements: the \<^verbatim>\<open>UPDATE\<close> of \<^verbatim>\<open>sync_state\<close> and its commit.\<close>

definition advance_checkpoint :: "world \<Rightarrow> conn \<Rightarrow> error option \<times> conn" where
  "advance_checkpoint W c = thenDB (update_sync_state W c) (commit (db_fault W))"

text \<open>
  The text the two scripts share, from the line that builds \<^verbatim>\<open>id_to_value\<close> to the
  last commit; they differ in \<^verbatim>\<open>CSV_CHUNK\<close> only.
\<close>

definition pipeline :: "pylib \<Rightarrow> world \<Rightarrow> nat \<Rightarrow> jv list \<Rightarrow> conn \<Rightarrow> error option \<times> conn" where
  "pipeline L W csv_chunk attrs c =
     (case prepare L W attrs of
        Inl e \<Rightarrow> (Some e, c)
      | Inr (id_to_value, evs, event_map) \<Rightarrow>
          thenDB (upsert_phase L W evs attrs c) (\<lambda>c3.
          thenDB (load_attributes L W csv_chunk event_map id_to_value attrs c3)
            (advance_checkpoint W)))"

section \<open>The backfill script\<close>

definition CSV_CHUNK_backfill :: nat where
  "CSV_CHUNK_backfill = 100000"

text \<open>A run of \<^verbatim>\<open>misp_backfill_v9_final_version.py\<close> on the database \<open>d\<close>: the exception
  that ended it, if any, and the connection as the run left it.\<close>

definition backfill_main :: "pylib \<Rightarrow> world \<Rightarrow> db \<Rightarrow> (error option \<times> conn) option" where
  "backfill_main L W d =
     (case fetch_all_attributes W of
        None \<Rightarrow> None
      | Some (Inl e) \<Rightarrow> Some (Some e, connect d)
      | Some (Inr attrs) \<Rightarrow> Some (pipeline L W CSV_CHUNK_backfill attrs (connect d)))"

section \<open>The sync script\<close>

definition INTERVAL_H :: int where
  "INTERVAL_H = 4"

definition CSV_CHUNK_sync :: nat where
  "CSV_CHUNK_sync = 10000"

text \<open>\<^verbatim>\<open>timedelta(hours=h)\<close>, in microseconds.\<close>

definition hours :: "int \<Rightarrow> int" where
  "hours h = h * 3600 * 1000000"

text \<open>The rows of \<^verbatim>\<open>SELECT last_run FROM sync_state WHERE id=1\<close> and \<^verbatim>\<open>fetchone\<close>.\<close>

definition select_last_run :: "db \<Rightarrow> datetime option list" where
  "select_last_run d = map snd (filter (\<lambda>r. fst r = 1) (sync_state d))"

definition fetchone :: "'a list \<Rightarrow> 'a option" where
  "fetchone rows = (case rows of [] \<Rightarrow> None | r # rest \<Rightarrow> Some r)"

text \<open>\<^verbatim>\<open>since = r[0] if r and r[0] else datetime.now(timezone.utc) - timedelta(hours=INTERVAL_H)\<close>;
  a row is a non-empty tuple and a datetime is never false.\<close>

definition since_of :: "world \<Rightarrow> datetime option option \<Rightarrow> datetime" where
  "since_of W r = (case r of Some (Some t) \<Rightarrow> t | _ \<Rightarrow> now_start W - hours INTERVAL_H)"

definition sync_since :: "world \<Rightarrow> db \<Rightarrow> datetime" where
  "sync_since W d = since_of W (fetchone (select_last_run d))"

text \<open>\<^verbatim>\<open>int(since.timestamp())\<close>: whole seconds, rounded towards zero (the rounding of the
  floating-point division is not modelled).\<close>

definition since_ts :: "datetime \<Rightarrow> int" where
  "since_ts t = (if 0 \<le> t then t div 1000000 else - ((- t) div 1000000))"

text \<open>\<^verbatim>\<open>len(v)\<close>.\<close>

fun py_len :: "jv \<Rightarrow> error + nat" where
  "py_len (JList xs) = Inr (length xs)"
| "py_len (JObj kvs) = Inr (length kvs)"
| "py_len (JStr s) = Inr (length s)"
| "py_len _ = Inl TypeError"

text \<open>The delta request and what the script prints of its answer (\<^verbatim>\<open>len(attrs)\<close>).\<close>

definition delta_attributes :: "world \<Rightarrow> int \<Rightarrow> error + jv" where
  "delta_attributes W ts =
     bindE (bindE (post_attributes_since W ts) attribute_block) (\<lambda>attrs.
     bindE (py_len attrs) (\<lambda>n. Inr attrs))"

text \<open>A run of \<^verbatim>\<open>misp_sync_v9_final_version.py\<close>; with no attributes it ends at
  \<^verbatim>\<open>exit(0)\<close>, without an exception.\<close>

definition sync_main :: "pylib \<Rightarrow> world \<Rightarrow> db \<Rightarrow> error option \<times> conn" where
  "sync_main L W d =
     thenDB (db_call (db_fault W) OpSelectSyncState (\<lambda>x. x) (connect d)) (\<lambda>c.
       (case delta_attributes W (since_ts (sync_since W (working c))) of
          Inl e \<Rightarrow> (Some e, c)
        | Inr attrs \<Rightarrow>
            if \<not> truthy attrs then (None, c)
            else (case py_iter attrs of
                    Inl e \<Rightarrow> (Some e, c)
                  | Inr xs \<Rightarrow> pipeline L W CSV_CHUNK_sync xs c)))"

section \<open>The geo enrichment script\<close>

text \<open>What \<^verbatim>\<open>reader.city(ip)\<close> returns: the four names \<^verbatim>\<open>enrich\<close> reads from it, each of
  which the GeoLite2 database may lack.\<close>

record geo_hit =
  g_country_name :: "string option"
  g_country_code :: "string option"
  g_region_name :: "string option"
  g_city :: "string option"

text \<open>One element of \<^verbatim>\<open>updates\<close>: the dictionary \<^verbatim>\<open>enrich\<close> returns.\<close>

record geo_update =
  u_id :: int
  u_geo :: geo_hit

text \<open>
  The world outside a run of the geo script: name resolution and the GeoLite2 reader
  (\<open>None\<close> where the call raises), the faults of the connection, and the order in which
  the pool's tasks run and complete. The tasks are taken to run one after the other in
  that order; the resolver answers the same for the same name during one run.
\<close>

record geo_world =
  gethostbyname :: "string \<Rightarrow> string option"
  reader_city :: "string \<Rightarrow> geo_hit option"
  task_order :: "(int \<times> string \<times> string) list \<Rightarrow> (int \<times> string \<times> string) list"
  geo_db_fault :: "nat \<Rightarrow> bool"

definition BATCH_SIZE :: nat where
  "BATCH_SIZE = 1000"

text \<open>The selection: \<^verbatim>\<open>WHERE country_name IS NULL AND type IN ('ip-src','ip-dst','ip','cidr','domain')\<close>.\<close>

definition geo_types :: "string list" where
  "geo_types = [''ip-src'', ''ip-dst'', ''ip'', ''cidr'', ''domain'']"

definition selected :: "attr_row \<Rightarrow> bool" where
  "selected r = (country_name r = None \<and> a_type r \<in> set geo_types)"

definition select_rows :: "db \<Rightarrow> (int \<times> string \<times> string) list" where
  "select_rows d = map (\<lambda>r. (a_id r, a_value r, a_type r)) (filter selected (attributes_minimal d))"

text \<open>The second half of \<^verbatim>\<open>enrich\<close>: the lookup of an address.\<close>

definition city_lookup :: "geo_world \<Rightarrow> int \<Rightarrow> string \<Rightarrow> geo_update option" where
  "city_lookup G aid ip =
     (case reader_city G ip of None \<Rightarrow> None | Some h \<Rightarrow> Some \<lparr>u_id = aid, u_geo = h\<rparr>)"

text \<open>\<^verbatim>\<open>enrich\<close>, with \<^verbatim>\<open>dns_cache\<close> passed in and returned.\<close>

definition enrich :: "geo_world \<Rightarrow> (string \<Rightarrow> string option) \<Rightarrow> int \<times> string \<times> string \<Rightarrow> geo_update option \<times> (string \<Rightarrow> string option)" where
  "enrich G dns_cache r =
     (case r of (aid, val, typ) \<Rightarrow>
        if typ = ''domain'' then
          (case dns_cache val of
             Some ip \<Rightarrow> (city_lookup G aid ip, dns_cache)
           | None \<Rightarrow>
               (case gethostbyname G val of
                  None \<Rightarrow> (None, dns_cache)
                | Some ip \<Rightarrow> (city_lookup G aid ip, dns_cache(val \<mapsto> ip))))
        else (city_lookup G aid val, dns_cache))"

text \<open>The pool: the results of the tasks, in the order they complete.\<close>

fun run_tasks :: "geo_world \<Rightarrow> (string \<Rightarrow> string option) \<Rightarrow> (int \<times> string \<times> string) list \<Rightarrow> geo_update option list" where
  "run_tasks G dns_cache [] = []"
| "run_tasks G dns_cache (r # rs) =
     (case enrich G dns_cache r of (res, dns_cache') \<Rightarrow> res # run_tasks G dns_cache' rs)"

text \<open>\<^verbatim>\<open>updates\<close>: the results that are not \<^verbatim>\<open>None\<close>.\<close>

definition geo_updates :: "geo_world \<Rightarrow> db \<Rightarrow> geo_update list" where
  "geo_updates G d = List.map_filter (\<lambda>x. x) (run_tasks G Map.empty (task_order G (select_rows d)))"

text \<open>\<^verbatim>\<open>UPDATE attributes_minimal SET country_name = ..., country_code = ..., region_name = ...,
  city = ... WHERE id = ...\<close>.\<close>

definition set_geo :: "geo_hit \<Rightarrow> attr_row \<Rightarrow> attr_row" where
  "set_geo h r = r\<lparr>country_name := g_country_name h, country_code := g_country_code h,
                   region_name := g_region_name h, city := g_city h\<rparr>"

definition apply_update :: "geo_update \<Rightarrow> attr_row list \<Rightarrow> attr_row list" where
  "apply_update u tbl = map (\<lambda>r. if a_id r = u_id u then set_geo (u_geo u) r else r) tbl"

text \<open>The loop over the batches of \<^verbatim>\<open>updates\<close>: \<^verbatim>\<open>execute_batch\<close>, then \<^verbatim>\<open>commit\<close>.\<close>

fun update_batches :: "geo_world \<Rightarrow> geo_update list list \<Rightarrow> conn \<Rightarrow> error option \<times> conn" where
  "update_batches G [] c = (None, c)"
| "update_batches G (chunk # rest) c =
     (case db_call (geo_db_fault G) (OpUpdateGeo (length chunk))
             (\<lambda>d. d\<lparr>attributes_minimal := fold apply_update chunk (attributes_minimal d)\<rparr>) c of
        (Some e, c1) \<Rightarrow> (Some e, c1)
      | (None, c1) \<Rightarrow>
          (case commit (geo_db_fault G) c1 of
             (Some e, c2) \<Rightarrow> (Some e, c2)
           | (None, c2) \<Rightarrow> update_batches G rest c2))"

text \<open>A run of \<^verbatim>\<open>misp_geo_backfill_v9_final_version.py\<close>.\<close>

definition geo_main :: "geo_world \<Rightarrow> db \<Rightarrow> error option \<times> conn" where
  "geo_main G d =
     thenDB (db_call (geo_db_fault G) OpSelectGeo (\<lambda>x. x) (connect d)) (\<lambda>c.
       update_batches G (chunked BATCH_SIZE (geo_updates G (working c))) c)"

section \<open>Runs and what the log of a connection says\<close>

datatype script = Backfill | Sync

definition run_script :: "script \<Rightarrow> pylib \<Rightarrow> world \<Rightarrow> db \<Rightarrow> (error option \<times> conn) option" where
  "run_script s L W d =
     (case s of Backfill \<Rightarrow> backfill_main L W d | Sync \<Rightarrow> Some (sync_main L W d))"

text \<open>\<^verbatim>\<open>CSV_CHUNK\<close> of the script.\<close>

definition chunk_of :: "script \<Rightarrow> nat" where
  "chunk_of s = (case s of Backfill \<Rightarrow> CSV_CHUNK_backfill | Sync \<Rightarrow> CSV_CHUNK_sync)"

text \<open>The attributes a run works on: all pages for the backfill, the elements of the
  delta answer for the sync.\<close>

definition fetched_attributes :: "script \<Rightarrow> world \<Rightarrow> db \<Rightarrow> (error + jv list) option" where
  "fetched_attributes s W d =
     (case s of
        Backfill \<Rightarrow> fetch_all_attributes W
      | Sync \<Rightarrow> Some (bindE (delta_attributes W (since_ts (sync_since W d))) py_iter))"

text \<open>
  Reading a log from its start: the rows of the \<^verbatim>\<open>COPY\<close> statements whose transaction
  was committed, and the rows copied since the last commit.
\<close>

fun log_step :: "dbop \<Rightarrow> attr_row list \<times> attr_row list \<Rightarrow> attr_row list \<times> attr_row list" where
  "log_step (OpCopy rows) (done, pending) = (done, pending @ rows)"
| "log_step OpCommit (done, pending) = (done @ pending, [])"
| "log_step _ s = s"

definition committed_copies :: "dbop list \<Rightarrow> attr_row list" where
  "committed_copies log = fst (fold log_step log ([], []))"

text \<open>Event rows are only ever added, after the rows that are there.\<close>

definition events_kept :: "db \<Rightarrow> conn \<Rightarrow> bool" where
  "events_kept d c =
     (prefix (events_minimal d) (events_minimal (committed c))
      \<and> prefix (events_minimal d) (events_minimal (working c)))"

text \<open>The event and correlation tables are, committed and in the open transaction,
  those of \<open>d\<close>.\<close>

definition upserts_same :: "db \<Rightarrow> conn \<Rightarrow> bool" where
  "upserts_same d c =
     (events_minimal (committed c) = events_minimal d \<and> events_minimal (working c) = events_minimal d
      \<and> attribute_correlations (committed c) = attribute_correlations d
      \<and> attribute_correlations (working c) = attribute_correlations d)"

text \<open>The numbers of rows of the \<^verbatim>\<open>COPY\<close> statements of a log, in its order.\<close>

definition copy_sizes :: "dbop list \<Rightarrow> nat list" where
  "copy_sizes log = concat (map (\<lambda>op. case op of OpCopy rows \<Rightarrow> [length rows] | _ \<Rightarrow> []) log)"

text \<open>The sizes of the chunks of \<open>m\<close> rows in chunks of \<open>n\<close>: full chunks, then the rest.\<close>

definition chunk_sizes :: "nat \<Rightarrow> nat \<Rightarrow> nat list" where
  "chunk_sizes m n = replicate (m div n) n @ (if m mod n = 0 then [] else [m mod n])"

text \<open>The edge \<open>e\<close> is the candidate of the related-attribute entry \<open>r\<close> carried by the
  attribute \<open>a\<close>: each of its seven fields is read from where the extractor reads it.\<close>

definition is_edge_of :: "pylib \<Rightarrow> jv \<Rightarrow> jv \<Rightarrow> corr_row \<Rightarrow> bool" where
  "is_edge_of L a r e =
     (int_field L ''id'' a = Inr (attr_id e)
      \<and> int_field L ''id'' r = Inr (related_attr_id e)
      \<and> int_field L ''event_id'' r = Inr (related_event_id e)
      \<and> py_get r ''object_relation'' (JStr []) = Inr (relationship_type e)
      \<and> bindE (py_get r ''first_seen'' JNull) (\<lambda>v. Inr (parse_ts L v)) = Inr (c_first_seen e)
      \<and> bindE (py_get r ''last_seen'' JNull) (\<lambda>v. Inr (parse_ts L v)) = Inr (c_last_seen e)
      \<and> py_get r ''comment'' (JStr []) = Inr (c_comment e))"

text \<open>The pairs of an attribute and one of its related-attribute entries, in the order of
  the attributes and of their entries.\<close>

definition related_entries :: "jv list \<Rightarrow> error + (jv \<times> jv) list" where
  "related_entries attrs =
     bindE (mapE (\<lambda>a. bindE (related_attributes a) (\<lambda>rs. Inr (map (Pair a) rs))) attrs)
       (\<lambda>pss. Inr (concat pss))"

text \<open>The log of a connection agrees with its tables: the committed attribute table is the
  one the run found, followed by the rows of the committed copies; the open transaction
  sees the rows copied since in addition.\<close>

definition log_agrees :: "db \<Rightarrow> conn \<Rightarrow> bool" where
  "log_agrees d c =
     (attributes_minimal (committed c)
        = attributes_minimal d @ fst (fold log_step (oplog c) ([], []))
      \<and> attributes_minimal (working c)
        = attributes_minimal (committed c) @ snd (fold log_step (oplog c) ([], [])))"

text \<open>Neither the committed database nor the open transaction has another
  \<^verbatim>\<open>sync_state\<close> than \<open>S\<close>.\<close>

definition sync_untouched :: "(int \<times> datetime option) list \<Rightarrow> conn \<Rightarrow> bool" where
  "sync_untouched S c = (sync_state (working c) = S \<and> sync_state (committed c) = S)"

text \<open>The row \<open>r'\<close> has every column of \<open>r\<close> other than the four geography columns.\<close>

definition same_but_geo :: "attr_row \<Rightarrow> attr_row \<Rightarrow> bool" where
  "same_but_geo r r' =
     (a_id r' = a_id r \<and> a_event_id r' = a_event_id r \<and> a_category r' = a_category r
      \<and> a_type r' = a_type r \<and> a_value r' = a_value r \<and> a_to_ids r' = a_to_ids r
      \<and> a_uuid r' = a_uuid r \<and> a_created_ts r' = a_created_ts r \<and> a_comment r' = a_comment r
      \<and> a_first_seen r' = a_first_seen r \<and> a_last_seen r' = a_last_seen r
      \<and> related_event_info r' = related_event_info r \<and> event_info r' = event_info r
      \<and> event_galaxy_names r' = event_galaxy_names r)"

text \<open>
  The relation between the attribute table a run of the geo script finds and the one it
  leaves, \<open>ids\<close> being the ids of its updates: the same rows in the same places, each
  changed in its geography at most, and not at all when no update carries its id.
\<close>

definition geo_frame :: "int set \<Rightarrow> attr_row list \<Rightarrow> attr_row list \<Rightarrow> bool" where
  "geo_frame ids tbl tbl' =
     list_all2 (\<lambda>r r'. same_but_geo r r' \<and> (a_id r \<notin> ids \<longrightarrow> r' = r)) tbl tbl'"

definition geo_kept :: "int set \<Rightarrow> db \<Rightarrow> db \<Rightarrow> bool" where
  "geo_kept ids d d' =
     (events_minimal d' = events_minimal d \<and> attribute_correlations d' = attribute_correlations d
      \<and> sync_state d' = sync_state d \<and> geo_frame ids (attributes_minimal d) (attributes_minimal d'))"

text \<open>The databases that runs of the three scripts lead to from \<open>d\<close>, in any number and
  order, whatever the platform, the resolver, the clock and the faults are.\<close>

inductive after_runs :: "db \<Rightarrow> db \<Rightarrow> bool" where
  start: "after_runs d d"
| script: "after_runs d d1 \<Longrightarrow> run_script s L W d1 = Some (err, c) \<Longrightarrow> after_runs d (committed c)"
| geo: "after_runs d d1 \<Longrightarrow> geo_main G d1 = (err, c) \<Longrightarrow> after_runs d (committed c)"

section \<open>Sample data\<close>

text \<open>A library for the examples: \<^verbatim>\<open>int\<close> reads the decimal strings that occur in them.\<close>

definition lib0 :: pylib where
  "lib0 = \<lparr>str_to_int = map_of [(''1'', 1), (''2'', 2), (''3'', 3), (''10'', 10)],
            fromtimestamp = (\<lambda>n. Some (n * 1000000)),
            fromtimestamp_micro = (\<lambda>n. Some n),
            fromisoformat = (\<lambda>s. None),
            isoformat = (\<lambda>t. ''2024-01-01T00:00:00+00:00''),
            py_str = (\<lambda>v. ''10''),
            set_order = remdups\<rparr>"

text \<open>The event 10 and two attributes of it: A (id 1) carries one related-attribute entry,
  for B (id 2), with the relation "similar"; B carries none.\<close>

definition event10 :: jv where
  "event10 = JObj [(''id'', JStr ''10''), (''info'', JStr ''x''), (''date'', JStr ''2024-01-01''),
                   (''attribute_count'', JStr ''2'')]"

definition entryB :: jv where
  "entryB = JObj [(''id'', JStr ''2''), (''event_id'', JStr ''10''), (''object_relation'', JStr ''similar'')]"

definition attrA :: jv where
  "attrA = JObj [(''id'', JStr ''1''), (''event_id'', JStr ''10''), (''type'', JStr ''domain''),
                 (''value'', JStr ''a.example''), (''RelatedAttribute'', JList [entryB])]"

definition attrB :: jv where
  "attrB = JObj [(''id'', JStr ''2''), (''event_id'', JStr ''10''), (''type'', JStr ''ip-dst''),
                 (''value'', JStr ''192.0.2.1'')]"

definition body_of :: "jv list \<Rightarrow> jv" where
  "body_of attrs = JObj [(''response'', JObj [(''Attribute'', JList attrs)])]"

text \<open>A platform that has these two attributes: one page of them, then empty pages; the
  clock and the faults of the connection are left open.\<close>

definition world0 :: "(nat \<Rightarrow> bool) \<Rightarrow> datetime \<Rightarrow> world" where
  "world0 fault now =
     \<lparr>post_attributes_page = (\<lambda>p. if p = 1 then Inr (body_of [attrA, attrB]) else Inr (body_of [])),
      post_attributes_since = (\<lambda>ts. Inr (body_of [attrA, attrB])),
      post_event = (\<lambda>eid. if eid = 10 then Inr (JObj [(''Event'', event10)]) else Inl HTTPError),
      db_fault = fault, now_start = now, now_commit = now\<rparr>"

definition db0 :: "(int \<times> datetime option) list \<Rightarrow> db" where
  "db0 S = \<lparr>events_minimal = [], attribute_correlations = [], attributes_minimal = [], sync_state = S\<rparr>"

text \<open>\<^verbatim>\<open>id_to_value\<close> and \<^verbatim>\<open>event_map\<close> as a run builds them from these attributes.\<close>

definition id_to_value0 :: "int \<Rightarrow> jv option" where
  "id_to_value0 = map_of [(2, JStr ''192.0.2.1''), (1, JStr ''a.example'')]"

definition event_map0 :: "int \<Rightarrow> jv option" where
  "event_map0 = map_of [(10, event10)]"

text \<open>The rows staged for A and B, and the edge extracted from A.\<close>

definition rowA :: attr_row where
  "rowA = \<lparr>a_id = 1, a_event_id = 10, a_category = [], a_type = ''domain'',
            a_value = ''a.example'', a_to_ids = False, a_uuid = [], a_created_ts = None,
            a_comment = [], a_first_seen = None, a_last_seen = None,
            country_name = None, country_code = None, region_name = None, city = None,
            related_event_info = ''10:x|192.0.2.1'', event_info = ''x'',
            event_galaxy_names = []\<rparr>"

definition rowB :: attr_row where
  "rowB = \<lparr>a_id = 2, a_event_id = 10, a_category = [], a_type = ''ip-dst'',
            a_value = ''192.0.2.1'', a_to_ids = False, a_uuid = [], a_created_ts = None,
            a_comment = [], a_first_seen = None, a_last_seen = None,
            country_name = None, country_code = None, region_name = None, city = None,
            related_event_info = [], event_info = ''x'', event_galaxy_names = []\<rparr>"

definition edgeAB :: corr_row where
  "edgeAB = \<lparr>attr_id = 1, related_attr_id = 2, related_event_id = 10,
              relationship_type = JStr ''similar'', c_first_seen = None, c_last_seen = None,
              c_comment = JStr []\<rparr>"

definition row10 :: event_row where
  "row10 = \<lparr>e_id = 10, e_org_id = JNull, e_info = JStr ''x'', e_uuid = JNull,
             e_date = JStr ''2024-01-01'', e_attribute_count = JStr ''2'', e_last_modified = None,
             e_threat_level_id = JNull, e_publish_timestamp = None, e_feed_name = JNull,
             e_orgc_name = JNull\<rparr>"

text \<open>The attribute 1 after an edit on the platform: an address now; and a platform whose
  delta answer is this attribute.\<close>

definition attrA2 :: jv where
  "attrA2 = JObj [(''id'', JStr ''1''), (''event_id'', JStr ''10''), (''type'', JStr ''ip-dst''),
                  (''value'', JStr ''192.0.2.1'')]"

definition rowA2 :: attr_row where
  "rowA2 = \<lparr>a_id = 1, a_event_id = 10, a_category = [], a_type = ''ip-dst'',
             a_value = ''192.0.2.1'', a_to_ids = False, a_uuid = [], a_created_ts = None,
             a_comment = [], a_first_seen = None, a_last_seen = None,
             country_name = None, country_code = None, region_name = None, city = None,
             related_event_info = [], event_info = ''x'', event_galaxy_names = []\<rparr>"

definition world1 :: "(nat \<Rightarrow> bool) \<Rightarrow> datetime \<Rightarrow> world" where
  "world1 fault now =
     \<lparr>post_attributes_page = (\<lambda>p. if p = 1 then Inr (body_of [attrA2, attrB]) else Inr (body_of [])),
      post_attributes_since = (\<lambda>ts. Inr (body_of [attrA2])),
      post_event = (\<lambda>eid. if eid = 10 then Inr (JObj [(''Event'', event10)]) else Inl HTTPError),
      db_fault = fault, now_start = now, now_commit = now\<rparr>"

text \<open>A resolver that knows no name, a GeoLite2 database that knows one address, a pool
  that completes its tasks in the order of the rows, a connection that does not fail.\<close>

definition hit0 :: geo_hit where
  "hit0 = \<lparr>g_country_name = Some ''Exampleland'', g_country_code = Some ''EX'',
            g_region_name = None, g_city = None\<rparr>"

definition geo0 :: geo_world where
  "geo0 = \<lparr>gethostbyname = (\<lambda>name. None),
            reader_city = (\<lambda>ip. if ip = ''192.0.2.1'' then Some hit0 else None),
            task_order = (\<lambda>rows. rows), geo_db_fault = (\<lambda>k. False)\<rparr>"

text \<open>The warehouse after the sample backfill, and after a sync that fetched the edited
  attribute 1 in addition.\<close>

definition db_loaded :: "(int \<times> datetime option) list \<Rightarrow> db" where
  "db_loaded S = \<lparr>events_minimal = [row10], attribute_correlations = [edgeAB],
                   attributes_minimal = [rowA, rowB], sync_state = S\<rparr>"

definition db_edited :: "(int \<times> datetime option) list \<Rightarrow> db" where
  "db_edited S = \<lparr>events_minimal = [row10], attribute_correlations = [edgeAB],
                   attributes_minimal = [rowA, rowB, rowA2], sync_state = S\<rparr>"

section \<open>Auxiliary facts\<close>

lemma bindE_Inl [simp]: "bindE (Inl e) f = Inl e"
  by (simp add: bindE_def)

lemma bindE_Inr [simp]: "bindE (Inr x) f = f x"
  by (simp add: bindE_def)

lemma bindE_eq_Inr: "bindE m f = Inr y \<longleftrightarrow> (\<exists>x. m = Inr x \<and> f x = Inr y)"
  by (cases m) auto

lemma mapE_Inr_iff: "mapE f xs = Inr ys \<longleftrightarrow> list_all2 (\<lambda>x y. f x = Inr y) xs ys"
proof (induction xs arbitrary: ys)
  case Nil
  show ?case by auto
next
  case (Cons x xs)
  show ?case
    by (cases ys) (auto simp: Cons.IH [symmetric] split: sum.splits)
qed

lemma mapE_length: "mapE f xs = Inr ys \<Longrightarrow> length ys = length xs"
  by (simp add: mapE_Inr_iff list_all2_lengthD)

lemma mapE_append:
  "mapE f (xs @ ys) =
     (case mapE f xs of Inl e \<Rightarrow> Inl e
      | Inr us \<Rightarrow> (case mapE f ys of Inl e \<Rightarrow> Inl e | Inr vs \<Rightarrow> Inr (us @ vs)))"
  by (induction xs) (auto split: sum.splits)

lemma corr_param_edge:
  "corr_param L aid r = Inr e \<Longrightarrow> int_field L ''id'' a = Inr aid \<Longrightarrow> is_edge_of L a r e"
  by (auto simp: corr_param_def is_edge_of_def bindE_eq_Inr)

lemma corr_params_of_edges:
  assumes "corr_params_of L a = Inr es"
  shows "\<exists>rs. related_attributes a = Inr rs \<and> list_all2 (\<lambda>p e. is_edge_of L (fst p) (snd p) e) (map (Pair a) rs) es"
proof -
  from assms obtain aid rs where aid: "int_field L ''id'' a = Inr aid"
    and rs: "related_attributes a = Inr rs" and es: "mapE (corr_param L aid) rs = Inr es"
    by (auto simp: corr_params_of_def bindE_eq_Inr)
  from es have "list_all2 (\<lambda>r e. corr_param L aid r = Inr e) rs es"
    by (simp add: mapE_Inr_iff)
  then have "list_all2 (\<lambda>r e. is_edge_of L a r e) rs es"
    by (rule list_all2_mono) (simp add: corr_param_edge aid)
  then show ?thesis
    using rs by (simp add: list_all2_map1)
qed

lemma concat_all2:
  "list_all2 (list_all2 P) xss yss \<Longrightarrow> list_all2 P (concat xss) (concat yss)"
  by (induction rule: list_all2_induct) (auto intro: list_all2_appendI)

lemma mapE_corr_params_of:
  assumes "mapE (corr_params_of L) attrs = Inr ess"
  shows "\<exists>pss. mapE (\<lambda>a. bindE (related_attributes a) (\<lambda>rs. Inr (map (Pair a) rs))) attrs = Inr pss
          \<and> list_all2 (list_all2 (\<lambda>p e. is_edge_of L (fst p) (snd p) e)) pss ess"
  using assms
proof (induction attrs arbitrary: ess)
  case Nil
  then show ?case by simp
next
  case (Cons a attrs)
  from Cons.prems obtain es ess' where es: "corr_params_of L a = Inr es"
    and ess': "mapE (corr_params_of L) attrs = Inr ess'" and eq: "ess = es # ess'"
    by (auto split: sum.splits)
  from corr_params_of_edges [OF es] obtain rs where rs: "related_attributes a = Inr rs"
    and all: "list_all2 (\<lambda>p e. is_edge_of L (fst p) (snd p) e) (map (Pair a) rs) es"
    by blast
  from Cons.IH [OF ess'] obtain pss where
    pss: "mapE (\<lambda>a. bindE (related_attributes a) (\<lambda>rs. Inr (map (Pair a) rs))) attrs = Inr pss"
    and all': "list_all2 (list_all2 (\<lambda>p e. is_edge_of L (fst p) (snd p) e)) pss ess'"
    by blast
  show ?case
    using rs all pss all' eq by simp
qed

subsection \<open>Chunks\<close>

lemma py_range_unfold:
  "py_range start stop step =
     (if step = 0 \<or> stop \<le> start then [] else start # py_range (start + step) stop step)"
  by (rule py_range.simps)

declare py_range.simps [simp del]

lemma py_range_shift: "py_range (a + k) (b + k) n = map (\<lambda>s. s + k) (py_range a b n)"
proof (induction a b n rule: py_range.induct)
  case (1 start stop step)
  show ?case
  proof (cases "step = 0 \<or> stop \<le> start")
    case True
    then show ?thesis by (auto simp: py_range_unfold [of "start + k"] py_range_unfold [of start])
  next
    case False
    with 1 have IH: "py_range (start + step + k) (stop + k) step = map (\<lambda>s. s + k) (py_range (start + step) stop step)"
      by simp
    have "py_range (start + k) (stop + k) step = (start + k) # py_range (start + k + step) (stop + k) step"
      using False by (subst py_range_unfold) auto
    also have "start + k + step = start + step + k" by simp
    finally show ?thesis
      using False IH by (subst (2) py_range_unfold) auto
  qed
qed

lemma chunked_Nil [simp]: "chunked n [] = []"
  by (simp add: chunked_def py_range_unfold)

lemma chunked_rec:
  assumes "0 < n" "xs \<noteq> []"
  shows "chunked n xs = take n xs # chunked n (drop n xs)"
proof -
  have "py_range 0 (length xs) n = 0 # py_range n (length xs) n"
    using assms by (subst py_range_unfold) auto
  moreover have "map (\<lambda>s. take n (drop s xs)) (py_range n (length xs) n) = chunked n (drop n xs)"
  proof (cases "length xs \<le> n")
    case True
    then show ?thesis by (simp add: py_range_unfold [of n])
  next
    case False
    then have "py_range n (length xs) n = py_range (0 + n) ((length xs - n) + n) n"
      by simp
    also have "\<dots> = map (\<lambda>s. s + n) (py_range 0 (length xs - n) n)"
      by (rule py_range_shift)
    finally show ?thesis
      by (simp add: chunked_def o_def add.commute)
  qed
  ultimately show ?thesis
    by (simp add: chunked_def)
qed

lemma chunked_induct [consumes 1, case_names Nil Chunk]:
  assumes "0 < n" and "P []"
    and "\<And>xs. xs \<noteq> [] \<Longrightarrow> P (drop n xs) \<Longrightarrow> P xs"
  shows "P xs"
proof (induction xs rule: length_induct)
  case (1 xs)
  show ?case
  proof (cases "xs = []")
    case True
    then show ?thesis using assms(2) by simp
  next
    case False
    then have "length (drop n xs) < length xs"
      using assms(1) by simp
    with 1 have "P (drop n xs)" by blast
    with False show ?thesis by (rule assms(3))
  qed
qed

lemma concat_chunked:
  assumes n: "0 < n"
  shows "concat (chunked n xs) = xs"
  using n by (induction xs rule: chunked_induct) (simp_all add: chunked_rec n)

lemma concat_take_chunked:
  assumes n: "0 < n"
  shows "concat (take k (chunked n xs)) = take (k * n) xs"
  using n
proof (induction xs arbitrary: k rule: chunked_induct)
  case Nil
  then show ?case by simp
next
  case (Chunk xs)
  show ?case
  proof (cases k)
    case 0
    then show ?thesis by simp
  next
    case (Suc j)
    have "take n xs @ take (j * n) (drop n xs) = take (n + j * n) xs"
      by (simp add: take_add)
    then show ?thesis
      using Chunk Suc by (simp add: chunked_rec n)
  qed
qed

lemma map_length_chunked:
  assumes n: "0 < n"
  shows "map length (chunked n xs) = chunk_sizes (length xs) n"
  using n
proof (induction xs rule: chunked_induct)
  case Nil
  then show ?case by (simp add: chunk_sizes_def)
next
  case (Chunk xs)
  show ?case
  proof (cases "n \<le> length xs")
    case True
    then have "length xs div n = Suc ((length xs - n) div n)" "length xs mod n = (length xs - n) mod n"
      using n by (simp_all add: le_div_geq le_mod_geq)
    then show ?thesis
      using Chunk True by (simp add: chunked_rec chunk_sizes_def n)
  next
    case False
    then show ?thesis
      using Chunk by (simp add: chunked_rec chunk_sizes_def n)
  qed
qed

lemma ceil_div:
  assumes n: "0 < (n::nat)"
  shows "(m + n - 1) div n = m div n + (if m mod n = 0 then 0 else 1)"
proof -
  define q r where "q = m div n" and "r = m mod n"
  have m: "m = n * q + r" and r: "r < n"
    using n by (simp_all add: q_def r_def)
  show ?thesis
  proof (cases "r = 0")
    case True
    have "(m + n - 1) div n = q"
    proof (rule div_nat_eqI)
      show "n * q \<le> m + n - 1" using m n True by simp
      show "m + n - 1 < n * Suc q" using m n True by simp
    qed
    then show ?thesis using True by (simp add: q_def r_def)
  next
    case False
    have "(m + n - 1) div n = Suc q"
    proof (rule div_nat_eqI)
      show "n * Suc q \<le> m + n - 1" using m n False by simp
      show "m + n - 1 < n * Suc (Suc q)" using m n r by simp
    qed
    then show ?thesis using False by (simp add: q_def r_def)
  qed
qed

lemma length_chunk_sizes: "0 < n \<Longrightarrow> length (chunk_sizes m n) = (m + n - 1) div n"
  by (simp only: ceil_div) (simp add: chunk_sizes_def)

subsection \<open>Calls on the connection\<close>

lemma thenDB_None [simp]: "thenDB (None, c) f = f c"
  by (simp add: thenDB_def)

lemma thenDB_Some [simp]: "thenDB (Some e, c) f = (Some e, c)"
  by (simp add: thenDB_def)

lemma thenDB_cases:
  assumes "thenDB r f = (err, c')"
  obtains (stop) e where "r = (Some e, c')" "err = Some e"
        | (go) c1 where "r = (None, c1)" "f c1 = (err, c')"
  using assms by (cases r; cases "fst r") auto

lemma db_call_cases:
  assumes "db_call fault op f c = (err, c')"
  obtains (fault) "fault (length (oplog c))" "err = Some DatabaseError" "c' = c"
        | (ok) "\<not> fault (length (oplog c))" "err = None"
               "c' = c\<lparr>working := f (working c), oplog := oplog c @ [op]\<rparr>"
  using assms by (auto simp: db_call_def split: if_splits)

lemma commit_cases:
  assumes "commit fault c = (err, c')"
  obtains (fault) "fault (length (oplog c))" "err = Some DatabaseError" "c' = c"
        | (ok) "\<not> fault (length (oplog c))" "err = None"
               "c' = c\<lparr>committed := working c, oplog := oplog c @ [OpCommit]\<rparr>"
  using assms by (auto simp: commit_def split: if_splits)

lemma db_call_fail: "db_call fault op f c = (Some e, c') \<Longrightarrow> c' = c"
  by (auto elim: db_call_cases)

lemma commit_fail: "commit fault c = (Some e, c') \<Longrightarrow> c' = c"
  by (auto elim: commit_cases)

lemma copy_expert_fail: "copy_expert W rows c = (Some e, c') \<Longrightarrow> c' = c"
  unfolding copy_expert_def by (rule db_call_fail)

lemma update_sync_state_fail: "update_sync_state W c = (Some e, c') \<Longrightarrow> c' = c"
  unfolding update_sync_state_def by (rule db_call_fail)

lemma execute_batch_evt_fail: "execute_batch_evt L W ps c = (Some e, c') \<Longrightarrow> c' = c"
  by (auto simp: execute_batch_evt_def split: if_splits sum.splits dest: db_call_fail)

lemma execute_batch_corr_fail: "execute_batch_corr W rows c = (Some e, c') \<Longrightarrow> c' = c"
  by (auto simp: execute_batch_corr_def split: if_splits dest: db_call_fail)

subsection \<open>Properties kept by every call of a phase\<close>

lemma load_chunks_inv:
  assumes "load_chunks L W em iv chs c = (err, c')" and "P c"
    and copy: "\<And>rows c c1. P c \<Longrightarrow> copy_expert W rows c = (None, c1) \<Longrightarrow> P c1"
    and commit: "\<And>c c1. P c \<Longrightarrow> commit (db_fault W) c = (None, c1) \<Longrightarrow> P c1"
  shows "P c'"
  using assms(1,2)
proof (induction chs arbitrary: c)
  case Nil
  then show ?case by simp
next
  case (Cons ch chs)
  show ?case
  proof (cases "write_csv L em iv ch")
    case (Inl e)
    with Cons.prems show ?thesis by simp
  next
    case (Inr rows)
    obtain e1 c1 where c1: "copy_expert W rows c = (e1, c1)" by (cases "copy_expert W rows c")
    show ?thesis
    proof (cases e1)
      case (Some e)
      with c1 have "c1 = c" by (simp add: copy_expert_fail)
      with Cons.prems Inr c1 Some show ?thesis by simp
    next
      case None
      with c1 Cons.prems(2) have P1: "P c1" by (auto intro: copy)
      obtain e2 c2 where c2: "commit (db_fault W) c1 = (e2, c2)" by (cases "commit (db_fault W) c1")
      show ?thesis
      proof (cases e2)
        case (Some e)
        with c2 have "c2 = c1" by (simp add: commit_fail)
        with Cons.prems Inr c1 None c2 Some P1 show ?thesis by simp
      next
        case None': None
        with c2 P1 have P2: "P c2" by (auto intro: commit)
        from Cons.prems(1) Inr c1 None c2 None'
        have "load_chunks L W em iv chs c2 = (err, c')" by simp
        then show ?thesis using P2 by (rule Cons.IH)
      qed
    qed
  qed
qed

lemma load_attributes_inv:
  assumes "load_attributes L W n em iv attrs c = (err, c')" and "P c"
    and copy: "\<And>rows c c1. P c \<Longrightarrow> copy_expert W rows c = (None, c1) \<Longrightarrow> P c1"
    and commit: "\<And>c c1. P c \<Longrightarrow> commit (db_fault W) c = (None, c1) \<Longrightarrow> P c1"
  shows "P c'"
proof (cases "n = 0")
  case True
  with assms(1,2) show ?thesis by (simp add: load_attributes_def)
next
  case False
  with assms(1) have "load_chunks L W em iv (chunked n attrs) c = (err, c')"
    by (simp add: load_attributes_def)
  then show ?thesis using assms(2) copy commit by (rule load_chunks_inv)
qed

lemma upsert_phase_inv:
  assumes "upsert_phase L W evs attrs c = (err, c')" and "P c"
    and evt: "\<And>eps c c1. evt_params L evs = Inr eps \<Longrightarrow> P c \<Longrightarrow> execute_batch_evt L W eps c = (None, c1) \<Longrightarrow> P c1"
    and corr: "\<And>cps c c1. corr_params L attrs = Inr cps \<Longrightarrow> P c \<Longrightarrow> execute_batch_corr W cps c = (None, c1) \<Longrightarrow> P c1"
    and commit: "\<And>c c1. P c \<Longrightarrow> commit (db_fault W) c = (None, c1) \<Longrightarrow> P c1"
  shows "P c'"
proof (cases "evt_params L evs")
  case (Inl e)
  with assms(1,2) show ?thesis by (simp add: upsert_phase_def)
next
  case (Inr eps)
  with assms(1) have *: "thenDB (execute_batch_evt L W eps c) (\<lambda>c1.
            (case corr_params L attrs of
               Inl e \<Rightarrow> (Some e, c1)
             | Inr cps \<Rightarrow> thenDB (execute_batch_corr W cps c1) (commit (db_fault W)))) = (err, c')"
    by (simp add: upsert_phase_def)
  from * show ?thesis
  proof (cases rule: thenDB_cases)
    case (stop e)
    then show ?thesis using assms(2) by (auto dest: execute_batch_evt_fail)
  next
    case (go c1)
    with Inr assms(2) have P1: "P c1" by (auto intro: evt)
    show ?thesis
    proof (cases "corr_params L attrs")
      case (Inl e)
      with go P1 show ?thesis by simp
    next
      case cps: (Inr cps)
      with go have "thenDB (execute_batch_corr W cps c1) (commit (db_fault W)) = (err, c')"
        by simp
      then show ?thesis
      proof (cases rule: thenDB_cases)
        case (stop e)
        then show ?thesis using P1 by (auto dest: execute_batch_corr_fail)
      next
        case go2: (go c2)
        with cps P1 have P2: "P c2" by (auto intro: corr)
        show ?thesis
        proof (cases err)
          case None
          with go2 P2 show ?thesis by (auto intro: commit)
        next
          case (Some e)
          with go2 P2 show ?thesis by (auto dest: commit_fail)
        qed
      qed
    qed
  qed
qed

lemma advance_checkpoint_inv:
  assumes "advance_checkpoint W c = (err, c')" and "P c"
    and upd: "\<And>c c1. P c \<Longrightarrow> update_sync_state W c = (None, c1) \<Longrightarrow> P c1"
    and commit: "\<And>c c1. P c \<Longrightarrow> commit (db_fault W) c = (None, c1) \<Longrightarrow> P c1"
  shows "P c'"
  using assms(1) unfolding advance_checkpoint_def
proof (cases rule: thenDB_cases)
  case (stop e)
  then show ?thesis using assms(2) by (auto dest: update_sync_state_fail)
next
  case (go c1)
  with assms(2) have "P c1" by (auto intro: upd)
  with go show ?thesis by (cases err) (auto intro: commit dest: commit_fail)
qed

text \<open>A run of the pipeline either ends before the checkpoint is touched, with an
  exception, or reaches \<open>advance_checkpoint\<close> after a load that succeeded.\<close>

lemma pipeline_cases:
  assumes "pipeline L W n attrs c = (err, c')"
  obtains (prepare) e where "prepare L W attrs = Inl e" "err = Some e" "c' = c"
  | (upsert) iv evs em e where "prepare L W attrs = Inr (iv, evs, em)"
      "upsert_phase L W evs attrs c = (Some e, c')" "err = Some e"
  | (load) iv evs em c3 e where "prepare L W attrs = Inr (iv, evs, em)"
      "upsert_phase L W evs attrs c = (None, c3)"
      "load_attributes L W n em iv attrs c3 = (Some e, c')" "err = Some e"
  | (checkpoint) iv evs em c3 c4 where "prepare L W attrs = Inr (iv, evs, em)"
      "upsert_phase L W evs attrs c = (None, c3)"
      "load_attributes L W n em iv attrs c3 = (None, c4)"
      "advance_checkpoint W c4 = (err, c')"
proof (cases "prepare L W attrs")
  case (Inl e)
  with assms show ?thesis by (auto simp: pipeline_def intro: prepare)
next
  case (Inr p)
  obtain iv evs em where p: "p = (iv, evs, em)" by (cases p)
  from assms Inr p have "thenDB (upsert_phase L W evs attrs c) (\<lambda>c3.
          thenDB (load_attributes L W n em iv attrs c3) (advance_checkpoint W)) = (err, c')"
    by (simp add: pipeline_def)
  then show ?thesis
  proof (cases rule: thenDB_cases)
    case (stop e)
    with Inr p show ?thesis by (auto intro: upsert)
  next
    case (go c3)
    from go(2) show ?thesis
    proof (cases rule: thenDB_cases)
      case (stop e)
      with Inr p go(1) show ?thesis by (auto intro: load)
    next
      case go2: (go c4)
      with Inr p go(1) show ?thesis by (auto intro: checkpoint)
    qed
  qed
qed

lemma pipeline_inv:
  assumes run: "pipeline L W n attrs c = (err, c')" and "P c"
    and evt: "\<And>iv evs em eps c c1. prepare L W attrs = Inr (iv, evs, em) \<Longrightarrow> evt_params L evs = Inr eps
                \<Longrightarrow> P c \<Longrightarrow> execute_batch_evt L W eps c = (None, c1) \<Longrightarrow> P c1"
    and corr: "\<And>cps c c1. corr_params L attrs = Inr cps \<Longrightarrow> P c \<Longrightarrow> execute_batch_corr W cps c = (None, c1) \<Longrightarrow> P c1"
    and copy: "\<And>rows c c1. P c \<Longrightarrow> copy_expert W rows c = (None, c1) \<Longrightarrow> P c1"
    and upd: "\<And>c c1. P c \<Longrightarrow> update_sync_state W c = (None, c1) \<Longrightarrow> P c1"
    and commit: "\<And>c c1. P c \<Longrightarrow> commit (db_fault W) c = (None, c1) \<Longrightarrow> P c1"
  shows "P c'"
  using run
proof (cases rule: pipeline_cases)
  case (prepare e)
  then show ?thesis using \<open>P c\<close> by simp
next
  case (upsert iv evs em e)
  from upsert(2) \<open>P c\<close> show ?thesis
    by (rule upsert_phase_inv) (auto intro: evt [OF upsert(1)] corr commit)
next
  case (load iv evs em c3 e)
  from load(2) \<open>P c\<close> have "P c3"
    by (rule upsert_phase_inv) (auto intro: evt [OF load(1)] corr commit)
  with load(3) show ?thesis
    by (rule load_attributes_inv) (auto intro: copy commit)
next
  case (checkpoint iv evs em c3 c4)
  from checkpoint(2) \<open>P c\<close> have "P c3"
    by (rule upsert_phase_inv) (auto intro: evt [OF checkpoint(1)] corr commit)
  with checkpoint(3) have "P c4"
    by (rule load_attributes_inv) (auto intro: copy commit)
  with checkpoint(4) show ?thesis
    by (rule advance_checkpoint_inv) (auto intro: upd commit)
qed

text \<open>The same, for the calls before the checkpoint.\<close>

lemma pipeline_inv_before_checkpoint:
  assumes run: "pipeline L W n attrs c = (err, c')" and "P c"
    and evt: "\<And>eps c c1. P c \<Longrightarrow> execute_batch_evt L W eps c = (None, c1) \<Longrightarrow> P c1"
    and corr: "\<And>cps c c1. P c \<Longrightarrow> execute_batch_corr W cps c = (None, c1) \<Longrightarrow> P c1"
    and copy: "\<And>rows c c1. P c \<Longrightarrow> copy_expert W rows c = (None, c1) \<Longrightarrow> P c1"
    and commit: "\<And>c c1. P c \<Longrightarrow> commit (db_fault W) c = (None, c1) \<Longrightarrow> P c1"
  shows "(err \<noteq> None \<and> P c') \<or> (\<exists>c4. P c4 \<and> advance_checkpoint W c4 = (err, c'))"
  using run
proof (cases rule: pipeline_cases)
  case (prepare e)
  then show ?thesis using \<open>P c\<close> by simp
next
  case (upsert iv evs em e)
  from upsert(2) \<open>P c\<close> have "P c'"
    by (rule upsert_phase_inv) (auto intro: evt corr commit)
  with upsert show ?thesis by simp
next
  case (load iv evs em c3 e)
  from load(2) \<open>P c\<close> have "P c3"
    by (rule upsert_phase_inv) (auto intro: evt corr commit)
  with load(3) have "P c'"
    by (rule load_attributes_inv) (auto intro: copy commit)
  with load show ?thesis by simp
next
  case (checkpoint iv evs em c3 c4)
  from checkpoint(2) \<open>P c\<close> have "P c3"
    by (rule upsert_phase_inv) (auto intro: evt corr commit)
  with checkpoint(3) have "P c4"
    by (rule load_attributes_inv) (auto intro: copy commit)
  with checkpoint(4) show ?thesis by blast
qed

subsection \<open>The log and the attribute table\<close>

lemma log_agrees_connect: "log_agrees d (connect d)"
  by (simp add: log_agrees_def connect_def)

lemma log_agrees_db_call:
  assumes "log_agrees d c" and "db_call fault op f c = (None, c1)"
    and "attributes_minimal (f (working c)) = attributes_minimal (working c)"
    and "\<And>s. log_step op s = s"
  shows "log_agrees d c1"
  using assms
  by (cases "fold log_step (oplog c) ([], [])") (auto elim!: db_call_cases simp: log_agrees_def)

lemma log_agrees_evt:
  "log_agrees d c \<Longrightarrow> execute_batch_evt L W eps c = (None, c1) \<Longrightarrow> log_agrees d c1"
  by (auto simp: execute_batch_evt_def split: if_splits sum.splits elim!: log_agrees_db_call)

lemma log_agrees_corr:
  "log_agrees d c \<Longrightarrow> execute_batch_corr W cps c = (None, c1) \<Longrightarrow> log_agrees d c1"
  by (auto simp: execute_batch_corr_def split: if_splits elim!: log_agrees_db_call)

lemma log_agrees_upd:
  "log_agrees d c \<Longrightarrow> update_sync_state W c = (None, c1) \<Longrightarrow> log_agrees d c1"
  by (auto simp: update_sync_state_def elim!: log_agrees_db_call)

lemma log_agrees_copy:
  "log_agrees d c \<Longrightarrow> copy_expert W rows c = (None, c1) \<Longrightarrow> log_agrees d c1"
  by (cases "fold log_step (oplog c) ([], [])")
     (auto simp: copy_expert_def log_agrees_def elim!: db_call_cases)

lemma log_agrees_commit:
  "log_agrees d c \<Longrightarrow> commit fault c = (None, c1) \<Longrightarrow> log_agrees d c1"
  by (cases "fold log_step (oplog c) ([], [])") (auto simp: log_agrees_def elim!: commit_cases)

lemma log_agrees_pipeline:
  assumes "pipeline L W n attrs c = (err, c')" and "log_agrees d c"
  shows "log_agrees d c'"
  using assms
  by (rule pipeline_inv)
     (auto intro: log_agrees_evt log_agrees_corr log_agrees_copy log_agrees_upd log_agrees_commit)

subsection \<open>The checkpoint\<close>

lemma sync_untouched_db_call:
  assumes "sync_untouched S c" and "db_call fault op f c = (None, c1)"
    and "sync_state (f (working c)) = sync_state (working c)"
  shows "sync_untouched S c1"
  using assms by (auto elim!: db_call_cases simp: sync_untouched_def)

lemma sync_untouched_evt:
  "sync_untouched S c \<Longrightarrow> execute_batch_evt L W eps c = (None, c1) \<Longrightarrow> sync_untouched S c1"
  by (auto simp: execute_batch_evt_def split: if_splits sum.splits elim!: sync_untouched_db_call)

lemma sync_untouched_corr:
  "sync_untouched S c \<Longrightarrow> execute_batch_corr W cps c = (None, c1) \<Longrightarrow> sync_untouched S c1"
  by (auto simp: execute_batch_corr_def split: if_splits elim!: sync_untouched_db_call)

lemma sync_untouched_copy:
  "sync_untouched S c \<Longrightarrow> copy_expert W rows c = (None, c1) \<Longrightarrow> sync_untouched S c1"
  by (auto simp: copy_expert_def elim!: sync_untouched_db_call)

lemma sync_untouched_commit:
  "sync_untouched S c \<Longrightarrow> commit fault c = (None, c1) \<Longrightarrow> sync_untouched S c1"
  by (auto simp: sync_untouched_def elim!: commit_cases)

lemma advance_checkpoint_result:
  assumes "advance_checkpoint W c = (err, c')"
  shows "(err \<noteq> None \<and> committed c' = committed c)
       \<or> (err = None \<and> working c' = committed c'
           \<and> committed c' = (working c)\<lparr>sync_state := set_last_run (now_commit W) (sync_state (working c))\<rparr>)"
  using assms unfolding advance_checkpoint_def
proof (cases rule: thenDB_cases)
  case (stop e)
  then show ?thesis by (auto dest: update_sync_state_fail)
next
  case (go c1)
  from go(1) have c1: "c1 = c\<lparr>working := (working c)\<lparr>sync_state := set_last_run (now_commit W) (sync_state (working c))\<rparr>,
                            oplog := oplog c @ [OpUpdateSyncState]\<rparr>"
    by (auto simp: update_sync_state_def elim!: db_call_cases)
  from go(2) show ?thesis
    by (cases rule: commit_cases) (simp_all add: c1)
qed

lemma pipeline_checkpoint:
  assumes "pipeline L W n attrs c = (err, c')" and "sync_untouched S c"
  shows "(err \<noteq> None \<longrightarrow> sync_state (committed c') = S)
       \<and> (err = None \<longrightarrow> sync_state (committed c') = set_last_run (now_commit W) S)"
proof -
  from assms have "(err \<noteq> None \<and> sync_untouched S c')
      \<or> (\<exists>c4. sync_untouched S c4 \<and> advance_checkpoint W c4 = (err, c'))"
    by (rule pipeline_inv_before_checkpoint)
       (auto intro: sync_untouched_evt sync_untouched_corr sync_untouched_copy sync_untouched_commit)
  then show ?thesis
  proof
    assume "err \<noteq> None \<and> sync_untouched S c'"
    then show ?thesis by (auto simp: sync_untouched_def)
  next
    assume "\<exists>c4. sync_untouched S c4 \<and> advance_checkpoint W c4 = (err, c')"
    then obtain c4 where c4: "sync_untouched S c4" and adv: "advance_checkpoint W c4 = (err, c')"
      by blast
    from advance_checkpoint_result [OF adv] c4 show ?thesis
      by (auto simp: sync_untouched_def)
  qed
qed

subsection \<open>A load that succeeds\<close>

lemma mapE_concat:
  "mapE (mapE f) xss = Inr yss \<Longrightarrow> mapE f (concat xss) = Inr (concat yss)"
  by (induction xss arbitrary: yss) (auto simp: mapE_append split: sum.splits)

lemma mapE_chunked:
  assumes n: "0 < n" and "mapE f xs = Inr ys"
  shows "mapE (mapE f) (chunked n xs) = Inr (chunked n ys)"
  using n assms(2)
proof (induction xs arbitrary: ys rule: chunked_induct)
  case Nil
  then show ?case by auto
next
  case (Chunk xs)
  from Chunk.prems have all: "list_all2 (\<lambda>x y. f x = Inr y) xs ys"
    by (simp add: mapE_Inr_iff)
  then have ys: "ys \<noteq> []" using Chunk.hyps by auto
  from all have "mapE f (take n xs) = Inr (take n ys)" "mapE f (drop n xs) = Inr (drop n ys)"
    by (simp_all add: mapE_Inr_iff list_all2_takeI list_all2_dropI)
  with Chunk.IH [of "drop n ys"] show ?case
    using Chunk.hyps ys by (simp add: chunked_rec n)
qed

lemma load_chunks_success:
  assumes "load_chunks L W em iv chs c = (None, c')"
  shows "\<exists>rowss. mapE (write_csv L em iv) chs = Inr rowss
           \<and> working c' = (working c)\<lparr>attributes_minimal := attributes_minimal (working c) @ concat rowss\<rparr>
           \<and> oplog c' = oplog c @ concat (map (\<lambda>rows. [OpCopy rows, OpCommit]) rowss)
           \<and> (chs \<noteq> [] \<longrightarrow> committed c' = working c')
           \<and> (chs = [] \<longrightarrow> c' = c)"
  using assms
proof (induction chs arbitrary: c)
  case Nil
  then show ?case by simp
next
  case (Cons ch chs)
  from Cons.prems obtain rows c1 c2 where rows: "write_csv L em iv ch = Inr rows"
    and c1: "copy_expert W rows c = (None, c1)"
    and c2: "commit (db_fault W) c1 = (None, c2)"
    and rest: "load_chunks L W em iv chs c2 = (None, c')"
    by (auto split: sum.splits prod.splits option.splits)
  from c1 have c1': "c1 = c\<lparr>working := (working c)\<lparr>attributes_minimal := attributes_minimal (working c) @ rows\<rparr>,
                             oplog := oplog c @ [OpCopy rows]\<rparr>"
    by (auto simp: copy_expert_def elim!: db_call_cases)
  from c2 have c2': "c2 = c1\<lparr>committed := working c1, oplog := oplog c1 @ [OpCommit]\<rparr>"
    by (auto elim!: commit_cases)
  from Cons.IH [OF rest] obtain rowss where
    rowss: "mapE (write_csv L em iv) chs = Inr rowss"
    and w: "working c' = (working c2)\<lparr>attributes_minimal := attributes_minimal (working c2) @ concat rowss\<rparr>"
    and l: "oplog c' = oplog c2 @ concat (map (\<lambda>rows. [OpCopy rows, OpCommit]) rowss)"
    and cm: "chs \<noteq> [] \<longrightarrow> committed c' = working c'"
    and nil: "chs = [] \<longrightarrow> c' = c2"
    by blast
  have "committed c' = working c'"
    using cm nil c2' by (cases "chs = []") simp_all
  then show ?case
    using rows rowss w l by (simp add: c1' c2')
qed

lemma load_chunks_total:
  assumes "\<forall>k. \<not> db_fault W k" and "mapE (write_csv L em iv) chs = Inr rowss"
  shows "\<exists>c'. load_chunks L W em iv chs c = (None, c')"
  using assms(2)
proof (induction chs arbitrary: c rowss)
  case Nil
  then show ?case by simp
next
  case (Cons ch chs)
  from Cons.prems obtain rows rowss' where rows: "write_csv L em iv ch = Inr rows"
    and rowss': "mapE (write_csv L em iv) chs = Inr rowss'"
    by (auto split: sum.splits)
  show ?case
    using assms(1) rows Cons.IH [OF rowss']
    by (simp add: copy_expert_def db_call_def commit_def)
qed

lemma load_attributes_success:
  assumes "load_attributes L W n em iv attrs c = (None, c')"
  shows "\<exists>rows. write_csv L em iv attrs = Inr rows
           \<and> working c' = (working c)\<lparr>attributes_minimal := attributes_minimal (working c) @ rows\<rparr>
           \<and> oplog c' = oplog c @ concat (map (\<lambda>rows. [OpCopy rows, OpCommit]) (chunked n rows))
           \<and> (attrs \<noteq> [] \<longrightarrow> committed c' = working c')
           \<and> (attrs = [] \<longrightarrow> c' = c)"
proof -
  from assms have n: "0 < n" and run: "load_chunks L W em iv (chunked n attrs) c = (None, c')"
    by (auto simp: load_attributes_def split: if_splits)
  from load_chunks_success [OF run] obtain rowss where
    rowss: "mapE (write_csv L em iv) (chunked n attrs) = Inr rowss"
    and w: "working c' = (working c)\<lparr>attributes_minimal := attributes_minimal (working c) @ concat rowss\<rparr>"
    and l: "oplog c' = oplog c @ concat (map (\<lambda>rows. [OpCopy rows, OpCommit]) rowss)"
    and cm: "chunked n attrs \<noteq> [] \<longrightarrow> committed c' = working c'"
    and nil: "chunked n attrs = [] \<longrightarrow> c' = c"
    by blast
  from rowss have rows: "write_csv L em iv attrs = Inr (concat rowss)"
    unfolding write_csv_def using mapE_concat [of "csv_row L em iv" "chunked n attrs" rowss]
    by (simp add: concat_chunked n)
  then have "mapE (write_csv L em iv) (chunked n attrs) = Inr (chunked n (concat rowss))"
    unfolding write_csv_def by (intro mapE_chunked n)
  with rowss have eq: "rowss = chunked n (concat rowss)" by simp
  have ne: "attrs \<noteq> [] \<Longrightarrow> chunked n attrs \<noteq> []"
    by (simp add: chunked_rec n)
  show ?thesis
    using rows w l cm nil eq ne by (intro exI [of _ "concat rowss"]) auto
qed

lemma upsert_phase_success:
  assumes "upsert_phase L W evs attrs c = (None, c')"
  shows "\<exists>eps erows cps. evt_params L evs = Inr eps \<and> mapE (event_row_of L) eps = Inr erows
           \<and> corr_params L attrs = Inr cps
           \<and> committed c' = working c'
           \<and> working c' = (working c)\<lparr>events_minimal := fold insert_event erows (events_minimal (working c)),
                 attribute_correlations := fold insert_corr cps (attribute_correlations (working c))\<rparr>"
proof -
  from assms obtain eps where eps: "evt_params L evs = Inr eps"
    by (auto simp: upsert_phase_def split: sum.splits)
  with assms obtain c1 where c1: "execute_batch_evt L W eps c = (None, c1)"
    and rest: "(case corr_params L attrs of Inl e \<Rightarrow> (Some e, c1)
                | Inr cps \<Rightarrow> thenDB (execute_batch_corr W cps c1) (commit (db_fault W))) = (None, c')"
    by (auto simp: upsert_phase_def elim!: thenDB_cases)
  from rest obtain cps where cps: "corr_params L attrs = Inr cps"
    by (auto split: sum.splits)
  with rest obtain c2 where c2: "execute_batch_corr W cps c1 = (None, c2)"
    and c3: "commit (db_fault W) c2 = (None, c')"
    by (auto elim!: thenDB_cases)
  from c1 obtain erows where erows: "mapE (event_row_of L) eps = Inr erows"
    and w1: "working c1 = (working c)\<lparr>events_minimal := fold insert_event erows (events_minimal (working c))\<rparr>"
    by (cases "eps = []") (auto simp: execute_batch_evt_def split: sum.splits elim!: db_call_cases)
  from c2 have w2: "working c2 = (working c1)\<lparr>attribute_correlations := fold insert_corr cps (attribute_correlations (working c1))\<rparr>"
    by (cases "cps = []") (auto simp: execute_batch_corr_def elim!: db_call_cases)
  from c3 have "committed c' = working c'" "working c' = working c2"
    by (auto elim!: commit_cases)
  with eps erows cps w1 w2 show ?thesis by simp
qed

lemma pipeline_success:
  assumes "pipeline L W n attrs c = (None, c')"
  shows "\<exists>iv evs em eps erows cps rows.
           prepare L W attrs = Inr (iv, evs, em) \<and> evt_params L evs = Inr eps
           \<and> mapE (event_row_of L) eps = Inr erows \<and> corr_params L attrs = Inr cps
           \<and> write_csv L em iv attrs = Inr rows
           \<and> working c' = committed c'
           \<and> committed c' = \<lparr>events_minimal = fold insert_event erows (events_minimal (working c)),
                 attribute_correlations = fold insert_corr cps (attribute_correlations (working c)),
                 attributes_minimal = attributes_minimal (working c) @ rows,
                 sync_state = set_last_run (now_commit W) (sync_state (working c))\<rparr>"
  using assms
proof (cases rule: pipeline_cases)
  case (checkpoint iv evs em c3 c4)
  from upsert_phase_success [OF checkpoint(2)] obtain eps erows cps where
    eps: "evt_params L evs = Inr eps" "mapE (event_row_of L) eps = Inr erows" "corr_params L attrs = Inr cps"
    and w3: "working c3 = (working c)\<lparr>events_minimal := fold insert_event erows (events_minimal (working c)),
                 attribute_correlations := fold insert_corr cps (attribute_correlations (working c))\<rparr>"
    by blast
  from load_attributes_success [OF checkpoint(3)] obtain rows where
    rows: "write_csv L em iv attrs = Inr rows"
    and w4: "working c4 = (working c3)\<lparr>attributes_minimal := attributes_minimal (working c3) @ rows\<rparr>"
    by blast
  from advance_checkpoint_result [OF checkpoint(4)]
  have w5: "working c' = committed c'"
    "committed c' = (working c4)\<lparr>sync_state := set_last_run (now_commit W) (sync_state (working c4))\<rparr>"
    by simp_all
  show ?thesis
    using checkpoint(1) eps rows w5 by (simp add: w3 w4)
qed simp_all

subsection \<open>The scripts\<close>

lemma py_iter_after_len: "py_len v = Inr n \<Longrightarrow> \<exists>xs. py_iter v = Inr xs"
  by (cases v) auto

lemma run_script_cases:
  assumes "run_script s L W d = Some (err, c)"
  obtains (early) "committed c = d" "working c = d" "fold log_step (oplog c) ([], []) = ([], [])"
  | (pipeline) attrs c0 where "fetched_attributes s W d = Some (Inr attrs)"
      "committed c0 = d" "working c0 = d" "fold log_step (oplog c0) ([], []) = ([], [])"
      "pipeline L W (chunk_of s) attrs c0 = (err, c)"
proof (cases s)
  case Backfill
  with assms have run: "backfill_main L W d = Some (err, c)" by (simp add: run_script_def)
  then obtain r where r: "fetch_all_attributes W = Some r"
    by (auto simp: backfill_main_def split: option.splits)
  show ?thesis
  proof (cases r)
    case (Inl e)
    with run r have "c = connect d" by (simp add: backfill_main_def)
    then show ?thesis by (intro early) (simp_all add: connect_def)
  next
    case (Inr attrs)
    with run r have "pipeline L W (chunk_of s) attrs (connect d) = (err, c)"
      by (simp add: backfill_main_def chunk_of_def Backfill)
    moreover have "fetched_attributes s W d = Some (Inr attrs)"
      using r Inr Backfill by (simp add: fetched_attributes_def)
    ultimately show ?thesis
      by (intro pipeline [of attrs "connect d"]) (simp_all add: connect_def)
  qed
next
  case Sync
  with assms have run: "sync_main L W d = (err, c)" by (simp add: run_script_def)
  define c0 where "c0 = (connect d)\<lparr>working := working (connect d), oplog := oplog (connect d) @ [OpSelectSyncState]\<rparr>"
  have c0: "committed c0 = d" "working c0 = d" "fold log_step (oplog c0) ([], []) = ([], [])"
    by (simp_all add: c0_def connect_def)
  from run have "thenDB (db_call (db_fault W) OpSelectSyncState (\<lambda>x. x) (connect d)) (\<lambda>c.
       (case delta_attributes W (since_ts (sync_since W (working c))) of
          Inl e \<Rightarrow> (Some e, c)
        | Inr attrs \<Rightarrow>
            if \<not> truthy attrs then (None, c)
            else (case py_iter attrs of
                    Inl e \<Rightarrow> (Some e, c)
                  | Inr xs \<Rightarrow> pipeline L W CSV_CHUNK_sync xs c))) = (err, c)"
    by (simp add: sync_main_def)
  then show ?thesis
  proof (cases rule: thenDB_cases)
    case (stop e)
    then have "c = connect d" by (auto dest: db_call_fail)
    then show ?thesis by (intro early) (simp_all add: connect_def)
  next
    case (go c1)
    from go(1) have c1: "c1 = c0" by (auto elim!: db_call_cases simp: c0_def)
    show ?thesis
    proof (cases "delta_attributes W (since_ts (sync_since W d))")
      case (Inl e)
      with go(2) c1 c0 have "c = c0" by simp
      with c0 show ?thesis by (intro early) simp_all
    next
      case (Inr v)
      then obtain n where "py_len v = Inr n"
        by (auto simp: delta_attributes_def bindE_eq_Inr)
      then obtain xs where xs: "py_iter v = Inr xs"
        using py_iter_after_len by blast
      show ?thesis
      proof (cases "truthy v")
        case False
        with go(2) c1 c0 Inr have "c = c0" by simp
        with c0 show ?thesis by (intro early) simp_all
      next
        case True
        with go(2) c1 c0 Inr xs have "pipeline L W (chunk_of s) xs c0 = (err, c)"
          by (simp add: chunk_of_def Sync)
        moreover have "fetched_attributes s W d = Some (Inr xs)"
          using Inr xs Sync by (simp add: fetched_attributes_def)
        ultimately show ?thesis using c0 by (intro pipeline [of xs c0])
      qed
    qed
  qed
qed

subsection \<open>The sample run\<close>

lemmas sample_defs = lib0_def world0_def attrA_def attrB_def entryB_def event10_def body_of_def

lemma world0_sel [simp]:
  "db_fault (world0 f t) = f" "now_commit (world0 f t) = t" "now_start (world0 f t) = t"
  by (simp_all add: world0_def)

lemma lib0_int10: "str_to_int lib0 ''10'' = Some 10"
  by (simp add: lib0_def)

lemma sample_fetch: "fetch_all_attributes (world0 f t) = Some (Inr [attrA, attrB])"
  by (simp add: fetch_all_attributes_def fetch_pages.simps page_block_def world0_def
      attribute_block_def body_of_def)

lemma sample_delta: "delta_attributes (world0 f t) ts = Inr (JList [attrA, attrB])"
  by (simp add: delta_attributes_def world0_def attribute_block_def body_of_def)

lemma sample_prepare:
  "prepare lib0 (world0 f t) [attrA, attrB] = Inr (id_to_value0, [event10], event_map0)"
  by (simp add: prepare_def id_value_pair_def int_field_def fetch_ev_def event_pair_def dict_of_def
      sample_defs id_to_value0_def event_map0_def)

lemma sample_evt_params:
  "evt_params lib0 [event10] =
     Inr [\<lparr>e_id = JStr ''10'', e_org_id = JNull, e_info = JStr ''x'', e_uuid = JNull,
           e_date = JStr ''2024-01-01'', e_attribute_count = JStr ''2'', e_last_modified = None,
           e_threat_level_id = JNull, e_publish_timestamp = None, e_feed_name = JNull,
           e_orgc_name = JNull\<rparr>]"
  by (simp add: evt_params_def evt_param_def to_dt_def sample_defs)

lemma sample_corr_params: "corr_params lib0 [attrA, attrB] = Inr [edgeAB]"
  by (simp add: corr_params_def corr_params_of_def corr_param_def related_attributes_def
      int_field_def parse_ts_def sample_defs edgeAB_def)

lemma sample_write_csv: "write_csv lib0 event_map0 id_to_value0 [attrA, attrB] = Inr [rowA, rowB]"
  by (simp add: write_csv_def csv_row_def rel_part_def galaxy_names_def created_ts_cell_def
      csv_cell_def fmt_def dict_get_def as_str_def related_attributes_def int_field_def parse_ts_def
      sample_defs id_to_value0_def event_map0_def rowA_def rowB_def)

lemmas sample_run =
  pipeline_def sample_prepare upsert_phase_def sample_evt_params sample_corr_params
  execute_batch_evt_def execute_batch_corr_def copy_expert_def update_sync_state_def
  commit_def db_call_def event_row_of_def lib0_int10 insert_event_def insert_corr_def corr_key_def
  connect_def set_last_run_def load_attributes_def chunked_rec CSV_CHUNK_backfill_def
  CSV_CHUNK_sync_def sample_write_csv advance_checkpoint_def db0_def edgeAB_def

lemma sample_backfill_fault:
  "\<exists>c. backfill_main lib0 (world0 (\<lambda>k. k = 3) t) (db0 S) = Some (Some DatabaseError, c)
       \<and> events_minimal (committed c) = [row10] \<and> oplog c = [OpInsertEvents 1, OpInsertCorrelations 1, OpCommit]"
  by (simp add: backfill_main_def sample_fetch sample_run row10_def)

lemma sample_backfill_ok:
  "\<exists>c. backfill_main lib0 (world0 (\<lambda>k. False) t) (db0 S) = Some (None, c)
       \<and> committed c = \<lparr>events_minimal = [row10], attribute_correlations = [edgeAB],
            attributes_minimal = [rowA, rowB], sync_state = set_last_run t S\<rparr>"
  by (simp add: backfill_main_def sample_fetch sample_run row10_def)

subsection \<open>The pages of the backfill\<close>

lemma fetch_pages_until_empty:
  assumes pages: "\<And>p. page \<le> p \<Longrightarrow> p < n \<Longrightarrow>
      \<exists>b. page_block (post_attributes_page W) p = Inr b \<and> truthy b \<and> py_iter b = Inr (blocks p)"
    and last: "page_block (post_attributes_page W) n = Inr b" "\<not> truthy b" and le: "page \<le> n"
  shows "fetch_pages (post_attributes_page W) page attrs = Some (Inr (attrs @ concat (map blocks [page..<n])))"
  using pages le
proof (induction "n - page" arbitrary: page attrs)
  case 0
  then have "page = n" by simp
  with last show ?case by (subst fetch_pages.simps) simp
next
  case (Suc k)
  then have lt: "page < n" by simp
  with Suc.prems(1) [of page] obtain b' where b': "page_block (post_attributes_page W) page = Inr b'" "truthy b'"
    "py_iter b' = Inr (blocks page)"
    by auto
  have "fetch_pages (post_attributes_page W) (page + 1) (attrs @ blocks page)
      = Some (Inr ((attrs @ blocks page) @ concat (map blocks [page + 1..<n])))"
  proof (rule Suc.hyps(1))
    show "k = n - (page + 1)" using Suc.hyps(2) by simp
    show "page + 1 \<le> n" using lt by simp
    show "\<exists>b. page_block (post_attributes_page W) p = Inr b \<and> truthy b \<and> py_iter b = Inr (blocks p)"
      if "page + 1 \<le> p" "p < n" for p
      using that Suc.prems(1) [of p] by simp
  qed
  moreover have "[page..<n] = page # [page + 1..<n]"
    using lt by (simp add: upt_conv_Cons)
  ultimately show ?case
    using b' by (subst fetch_pages.simps) simp
qed

subsection \<open>What a run asks of the world\<close>

lemma copy_expert_world: "db_fault W' = db_fault W \<Longrightarrow> copy_expert W' rows c = copy_expert W rows c"
  by (simp add: copy_expert_def)

lemma execute_batch_evt_world:
  "db_fault W' = db_fault W \<Longrightarrow> execute_batch_evt L W' ps c = execute_batch_evt L W ps c"
  by (cases "mapE (event_row_of L) ps") (simp_all add: execute_batch_evt_def)

lemma execute_batch_corr_world:
  "db_fault W' = db_fault W \<Longrightarrow> execute_batch_corr W' rows c = execute_batch_corr W rows c"
  by (simp add: execute_batch_corr_def)

lemma update_sync_state_world:
  "db_fault W' = db_fault W \<Longrightarrow> now_commit W' = now_commit W
     \<Longrightarrow> update_sync_state W' c = update_sync_state W c"
  by (simp add: update_sync_state_def)

lemma load_chunks_world:
  assumes "db_fault W' = db_fault W"
  shows "load_chunks L W' em iv chs c = load_chunks L W em iv chs c"
proof (induction chs arbitrary: c)
  case Nil
  show ?case by simp
next
  case (Cons ch chs)
  show ?case
  proof (cases "write_csv L em iv ch")
    case (Inl e)
    then show ?thesis by simp
  next
    case (Inr rows)
    obtain e1 c1 where c1: "copy_expert W rows c = (e1, c1)" by (cases "copy_expert W rows c")
    obtain e2 c2 where c2: "commit (db_fault W) c1 = (e2, c2)" by (cases "commit (db_fault W) c1")
    show ?thesis
      using Inr c1 c2 assms Cons.IH [of c2]
      by (cases e1; cases e2) (simp_all add: copy_expert_world [OF assms])
  qed
qed

lemma upsert_phase_world:
  assumes "db_fault W' = db_fault W"
  shows "upsert_phase L W' evs attrs c = upsert_phase L W evs attrs c"
proof (cases "evt_params L evs")
  case (Inl e)
  then show ?thesis by (simp add: upsert_phase_def)
next
  case (Inr eps)
  obtain e1 c1 where c1: "execute_batch_evt L W eps c = (e1, c1)"
    by (cases "execute_batch_evt L W eps c")
  show ?thesis
    using Inr c1 assms
    by (cases e1; cases "corr_params L attrs")
       (simp_all add: upsert_phase_def execute_batch_evt_world [OF assms]
          execute_batch_corr_world [OF assms])
qed

lemma advance_checkpoint_world:
  assumes "db_fault W' = db_fault W" "now_commit W' = now_commit W"
  shows "advance_checkpoint W' c = advance_checkpoint W c"
proof -
  obtain e1 c1 where c1: "update_sync_state W c = (e1, c1)" by (cases "update_sync_state W c")
  then show ?thesis
    using assms by (cases e1) (simp_all add: advance_checkpoint_def update_sync_state_world [OF assms])
qed

lemma prepare_world: "post_event W' = post_event W \<Longrightarrow> prepare L W' attrs = prepare L W attrs"
  by (simp add: prepare_def fetch_ev_def [abs_def])

lemma pipeline_world:
  assumes "post_event W' = post_event W" "db_fault W' = db_fault W" "now_commit W' = now_commit W"
  shows "pipeline L W' n attrs c = pipeline L W n attrs c"
proof (cases "prepare L W attrs")
  case (Inl e)
  then show ?thesis by (simp add: pipeline_def prepare_world [OF assms(1)])
next
  case (Inr p)
  obtain iv evs em where p: "p = (iv, evs, em)" by (cases p)
  obtain e3 c3 where c3: "upsert_phase L W evs attrs c = (e3, c3)"
    by (cases "upsert_phase L W evs attrs c")
  obtain e4 c4 where c4: "load_attributes L W n em iv attrs c3 = (e4, c4)"
    by (cases "load_attributes L W n em iv attrs c3")
  have load: "load_attributes L W' n em iv attrs c3 = load_attributes L W n em iv attrs c3"
    by (simp add: load_attributes_def load_chunks_world [OF assms(2)])
  show ?thesis
    using Inr p c3 c4 load
    by (cases e3; cases e4)
       (simp_all add: pipeline_def prepare_world [OF assms(1)] upsert_phase_world [OF assms(2)]
          advance_checkpoint_world [OF assms(2,3)])
qed

lemma select_first_row:
  "filter (\<lambda>r. fst r = 1) (sync_state d) = (i, v) # rest \<Longrightarrow> fetchone (select_last_run d) = Some v"
  by (simp add: select_last_run_def fetchone_def)

lemma select_no_row:
  "filter (\<lambda>r. fst r = 1) (sync_state d) = [] \<Longrightarrow> fetchone (select_last_run d) = None"
  by (simp add: select_last_run_def fetchone_def)

subsection \<open>The geo script\<close>

lemma update_batches_inv:
  assumes "update_batches G bs c = (err, c')" and "P c"
    and upd: "\<And>chunk c c1. P c \<Longrightarrow> chunk \<in> set bs \<Longrightarrow>
        db_call (geo_db_fault G) (OpUpdateGeo (length chunk))
          (\<lambda>d. d\<lparr>attributes_minimal := fold apply_update chunk (attributes_minimal d)\<rparr>) c = (None, c1)
        \<Longrightarrow> P c1"
    and commit: "\<And>c c1. P c \<Longrightarrow> commit (geo_db_fault G) c = (None, c1) \<Longrightarrow> P c1"
  shows "P c'"
  using assms(1,2,3)
proof (induction bs arbitrary: c)
  case Nil
  then show ?case by simp
next
  case (Cons b bs)
  obtain e1 c1 where c1: "db_call (geo_db_fault G) (OpUpdateGeo (length b))
      (\<lambda>d. d\<lparr>attributes_minimal := fold apply_update b (attributes_minimal d)\<rparr>) c = (e1, c1)"
    by (cases "db_call (geo_db_fault G) (OpUpdateGeo (length b))
      (\<lambda>d. d\<lparr>attributes_minimal := fold apply_update b (attributes_minimal d)\<rparr>) c")
  show ?case
  proof (cases e1)
    case (Some e)
    with c1 have "c1 = c" by (simp add: db_call_fail)
    with Cons.prems c1 Some show ?thesis by simp
  next
    case None
    with c1 Cons.prems(2) have P1: "P c1" by (auto intro: Cons.prems(3))
    obtain e2 c2 where c2: "commit (geo_db_fault G) c1 = (e2, c2)"
      by (cases "commit (geo_db_fault G) c1")
    show ?thesis
    proof (cases e2)
      case (Some e)
      with c2 have "c2 = c1" by (simp add: commit_fail)
      with Cons.prems(1) c1 None c2 Some P1 show ?thesis by simp
    next
      case None': None
      with c2 P1 have P2: "P c2" by (auto intro: commit)
      from Cons.prems(1) c1 None c2 None'
      have "update_batches G bs c2 = (err, c')" by simp
      then show ?thesis using P2
        by (rule Cons.IH) (auto intro: Cons.prems(3))
    qed
  qed
qed


lemma geo_frame_refl: "geo_frame ids tbl tbl"
  unfolding geo_frame_def by (rule list_all2_refl) (simp add: same_but_geo_def)

lemma same_but_geo_set_geo: "same_but_geo r r' \<Longrightarrow> same_but_geo r (set_geo h r')"
  by (simp add: same_but_geo_def set_geo_def)

lemma same_but_geo_id: "same_but_geo r r' \<Longrightarrow> a_id r' = a_id r"
  by (simp add: same_but_geo_def)

lemma geo_frame_apply_update:
  assumes "geo_frame ids tbl tbl'" and "u_id u \<in> ids"
  shows "geo_frame ids tbl (apply_update u tbl')"
proof -
  have "list_all2 (\<lambda>r r'. same_but_geo r r' \<and> (a_id r \<notin> ids \<longrightarrow> r' = r)) tbl
          (map (\<lambda>r. if a_id r = u_id u then set_geo (u_geo u) r else r) tbl')"
    unfolding list_all2_map2
    using assms(1) [unfolded geo_frame_def]
  proof (rule list_all2_mono)
    fix r r'
    assume *: "same_but_geo r r' \<and> (a_id r \<notin> ids \<longrightarrow> r' = r)"
    show "same_but_geo r (if a_id r' = u_id u then set_geo (u_geo u) r' else r') \<and>
         (a_id r \<notin> ids \<longrightarrow> (if a_id r' = u_id u then set_geo (u_geo u) r' else r') = r)"
    proof (cases "a_id r' = u_id u")
      case True
      from * have "a_id r' = a_id r" by (simp add: same_but_geo_id)
      with True assms(2) have "a_id r \<in> ids" by simp
      with * True show ?thesis by (simp add: same_but_geo_set_geo)
    next
      case False
      then have "(if a_id r' = u_id u then set_geo (u_geo u) r' else r') = r'" by simp
      with * show ?thesis by metis
    qed
  qed
  then show ?thesis by (simp add: geo_frame_def apply_update_def)
qed

lemma geo_frame_fold:
  assumes "geo_frame ids tbl tbl'" and "u_id ` set us \<subseteq> ids"
  shows "geo_frame ids tbl (fold apply_update us tbl')"
  using assms by (induction us arbitrary: tbl') (simp_all add: geo_frame_apply_update)

lemma set_chunked:
  assumes "0 < n" and "chunk \<in> set (chunked n xs)"
  shows "set chunk \<subseteq> set xs"
proof -
  have "set chunk \<subseteq> set (concat (chunked n xs))"
    using assms(2) by auto
  then show ?thesis by (simp add: concat_chunked assms(1))
qed

lemma geo_main_kept:
  assumes "geo_main G d = (err, c)"
  shows "geo_kept (u_id ` set (geo_updates G d)) d (committed c)"
proof -
  let ?ids = "u_id ` set (geo_updates G d)"
  let ?P = "\<lambda>c. geo_kept ?ids d (committed c) \<and> geo_kept ?ids d (working c)"
  have P0: "?P (connect d)"
    by (simp add: geo_kept_def geo_frame_refl connect_def)
  from assms have run: "thenDB (db_call (geo_db_fault G) OpSelectGeo (\<lambda>x. x) (connect d)) (\<lambda>c.
       update_batches G (chunked BATCH_SIZE (geo_updates G (working c))) c) = (err, c)"
    by (simp add: geo_main_def)
  have "?P c"
    using run
  proof (cases rule: thenDB_cases)
    case (stop e)
    then have "c = connect d" by (auto dest: db_call_fail)
    with P0 show ?thesis by simp
  next
    case (go c1)
    from go(1) have c1: "working c1 = d" "committed c1 = d"
      by (auto elim!: db_call_cases simp: connect_def)
    then have P1: "?P c1" by (simp add: geo_kept_def geo_frame_refl)
    from go(2) c1 have "update_batches G (chunked BATCH_SIZE (geo_updates G d)) c1 = (err, c)"
      by simp
    then show ?thesis using P1
    proof (rule update_batches_inv)
      fix chunk c c1
      assume P: "?P c" and chunk: "chunk \<in> set (chunked BATCH_SIZE (geo_updates G d))"
        and call: "db_call (geo_db_fault G) (OpUpdateGeo (length chunk))
          (\<lambda>d. d\<lparr>attributes_minimal := fold apply_update chunk (attributes_minimal d)\<rparr>) c = (None, c1)"
      from chunk have "set chunk \<subseteq> set (geo_updates G d)"
        by (rule set_chunked [rotated]) (simp add: BATCH_SIZE_def)
      then have "u_id ` set chunk \<subseteq> ?ids" by auto
      with P call show "?P c1"
        by (auto elim!: db_call_cases simp: geo_kept_def intro: geo_frame_fold)
    next
      fix c c1
      assume "?P c" and "commit (geo_db_fault G) c = (None, c1)"
      then show "?P c1" by (auto elim!: commit_cases)
    qed
  qed
  then show ?thesis by simp
qed

subsection \<open>A table without the row 1\<close>

lemma set_last_run_no_row: "\<forall>r\<in>set S. fst r \<noteq> 1 \<Longrightarrow> set_last_run t S = S"
  unfolding set_last_run_def by (rule map_idI) simp

lemma sync_untouched_upd:
  assumes "\<forall>r\<in>set S. fst r \<noteq> 1" and "sync_untouched S c" and "update_sync_state W c = (None, c1)"
  shows "sync_untouched S c1"
  using assms(2,3) unfolding update_sync_state_def
  by (rule sync_untouched_db_call) (use assms(1,2) in \<open>simp add: set_last_run_no_row sync_untouched_def\<close>)

lemma run_script_no_row:
  assumes "\<forall>r\<in>set (sync_state d). fst r \<noteq> 1" and "run_script s L W d = Some (err, c)"
  shows "sync_state (committed c) = sync_state d"
  using assms(2)
proof (cases rule: run_script_cases)
  case early
  then show ?thesis by simp
next
  case (pipeline attrs c0)
  have "sync_untouched (sync_state d) c0"
    using pipeline(2,3) by (simp add: sync_untouched_def)
  with pipeline(5) have "sync_untouched (sync_state d) c"
    by (rule pipeline_inv)
       (auto intro: sync_untouched_evt sync_untouched_corr sync_untouched_copy
          sync_untouched_commit sync_untouched_upd [OF assms(1)])
  then show ?thesis by (simp add: sync_untouched_def)
qed

lemma after_runs_no_row:
  assumes "after_runs d d'" and "\<forall>r\<in>set (sync_state d). fst r \<noteq> 1"
  shows "sync_state d' = sync_state d"
  using assms
proof (induction rule: after_runs.induct)
  case (start d)
  show ?case by simp
next
  case (script d d1 s L W err c)
  then have "sync_state d1 = sync_state d" by simp
  with script.prems script.hyps(2) show ?case
    using run_script_no_row [of d1 s L W err c] by simp
next
  case (geo d d1 G err c)
  then have "sync_state d1 = sync_state d" by simp
  with geo_main_kept [OF geo.hyps(2)] show ?case
    by (simp add: geo_kept_def)
qed

subsection \<open>Insert-or-ignore\<close>

lemma insert_event_known: "e_id r \<in> e_id ` set tbl \<Longrightarrow> insert_event r tbl = tbl"
  by (simp add: insert_event_def)

lemma keys_insert_event: "e_id ` set (insert_event r tbl) = insert (e_id r) (e_id ` set tbl)"
  by (auto simp: insert_event_def)

lemma keys_fold_insert_event:
  "e_id ` set (fold insert_event rows tbl) = e_id ` set tbl \<union> e_id ` set rows"
  by (induction rows arbitrary: tbl) (simp_all add: keys_insert_event)

lemma fold_insert_event_known:
  "e_id ` set rows \<subseteq> e_id ` set tbl \<Longrightarrow> fold insert_event rows tbl = tbl"
  by (induction rows arbitrary: tbl) (simp_all add: insert_event_known)

lemma fold_insert_event_twice:
  "fold insert_event rows (fold insert_event rows tbl) = fold insert_event rows tbl"
  by (rule fold_insert_event_known) (simp add: keys_fold_insert_event)

lemma prefix_insert_event: "prefix tbl (insert_event r tbl)"
  by (simp add: insert_event_def)

lemma prefix_fold_insert_event: "prefix tbl (fold insert_event rows tbl)"
proof (induction rows arbitrary: tbl)
  case Nil
  show ?case by simp
next
  case (Cons r rows)
  have "prefix tbl (insert_event r tbl)" by (rule prefix_insert_event)
  also have "prefix (insert_event r tbl) (fold insert_event rows (insert_event r tbl))"
    by (rule Cons.IH)
  finally show ?case by simp
qed

lemma insert_corr_known: "corr_key r \<in> corr_key ` set tbl \<Longrightarrow> insert_corr r tbl = tbl"
  by (simp add: insert_corr_def)

lemma keys_insert_corr:
  "corr_key ` set (insert_corr r tbl) = insert (corr_key r) (corr_key ` set tbl)"
  by (auto simp: insert_corr_def)

lemma keys_fold_insert_corr:
  "corr_key ` set (fold insert_corr rows tbl) = corr_key ` set tbl \<union> corr_key ` set rows"
  by (induction rows arbitrary: tbl) (simp_all add: keys_insert_corr)

lemma fold_insert_corr_known:
  "corr_key ` set rows \<subseteq> corr_key ` set tbl \<Longrightarrow> fold insert_corr rows tbl = tbl"
  by (induction rows arbitrary: tbl) (simp_all add: insert_corr_known)

lemma fold_insert_corr_twice:
  "fold insert_corr rows (fold insert_corr rows tbl) = fold insert_corr rows tbl"
  by (rule fold_insert_corr_known) (simp add: keys_fold_insert_corr)

subsection \<open>What a call does to the event and correlation tables\<close>

lemma execute_batch_evt_ok:
  assumes "execute_batch_evt L W eps c = (None, c1)"
  shows "\<exists>erows. mapE (event_row_of L) eps = Inr erows
           \<and> committed c1 = committed c
           \<and> working c1 = (working c)\<lparr>events_minimal := fold insert_event erows (events_minimal (working c))\<rparr>"
  using assms
  by (cases "eps = []") (auto simp: execute_batch_evt_def split: sum.splits elim!: db_call_cases)

lemma execute_batch_corr_ok:
  assumes "execute_batch_corr W cps c = (None, c1)"
  shows "committed c1 = committed c
       \<and> working c1 = (working c)\<lparr>attribute_correlations := fold insert_corr cps (attribute_correlations (working c))\<rparr>"
  using assms
  by (cases "cps = []") (auto simp: execute_batch_corr_def elim!: db_call_cases)

lemma copy_expert_ok:
  assumes "copy_expert W rows c = (None, c1)"
  shows "committed c1 = committed c
       \<and> working c1 = (working c)\<lparr>attributes_minimal := attributes_minimal (working c) @ rows\<rparr>"
  using assms by (auto simp: copy_expert_def elim!: db_call_cases)

lemma update_sync_state_ok:
  assumes "update_sync_state W c = (None, c1)"
  shows "committed c1 = committed c
       \<and> working c1 = (working c)\<lparr>sync_state := set_last_run (now_commit W) (sync_state (working c))\<rparr>"
  using assms by (auto simp: update_sync_state_def elim!: db_call_cases)

lemma commit_ok:
  assumes "commit fault c = (None, c1)"
  shows "committed c1 = working c \<and> working c1 = working c"
  using assms by (auto elim!: commit_cases)

lemma pipeline_events_kept:
  assumes "pipeline L W n attrs c = (err, c')" and "events_kept d c"
  shows "events_kept d c'"
  using assms
proof (rule pipeline_inv)
  fix eps c c1
  assume "events_kept d c" and "execute_batch_evt L W eps c = (None, c1)"
  then show "events_kept d c1"
    using prefix_order.trans [OF _ prefix_fold_insert_event]
    by (auto simp: events_kept_def dest!: execute_batch_evt_ok)
next
  fix cps c c1
  assume "events_kept d c" and "execute_batch_corr W cps c = (None, c1)"
  then show "events_kept d c1"
    by (auto simp: events_kept_def dest!: execute_batch_corr_ok)
next
  fix rows c c1
  assume "events_kept d c" and "copy_expert W rows c = (None, c1)"
  then show "events_kept d c1"
    by (auto simp: events_kept_def dest!: copy_expert_ok)
next
  fix c c1
  assume "events_kept d c" and "update_sync_state W c = (None, c1)"
  then show "events_kept d c1"
    by (auto simp: events_kept_def dest!: update_sync_state_ok)
next
  fix c c1
  assume "events_kept d c" and "commit (db_fault W) c = (None, c1)"
  then show "events_kept d c1"
    by (auto simp: events_kept_def dest!: commit_ok)
qed

lemma pipeline_second_run:
  assumes first: "prepare L W attrs = Inr (iv, evs, em)" "evt_params L evs = Inr eps"
      "mapE (event_row_of L) eps = Inr erows" "corr_params L attrs = Inr cps"
    and d1: "events_minimal d1 = fold insert_event erows E" "attribute_correlations d1 = fold insert_corr cps C"
    and run: "pipeline L W n attrs c = (err, c')" and same: "upserts_same d1 c"
  shows "upserts_same d1 c'"
  using run same
proof (rule pipeline_inv)
  fix iv' evs' em' eps' c c1
  assume "prepare L W attrs = Inr (iv', evs', em')" "evt_params L evs' = Inr eps'"
    and s: "upserts_same d1 c" and call: "execute_batch_evt L W eps' c = (None, c1)"
  with first have "eps' = eps" by simp
  with execute_batch_evt_ok [OF call] first(3)
  have "committed c1 = committed c"
    "working c1 = (working c)\<lparr>events_minimal := fold insert_event erows (events_minimal (working c))\<rparr>"
    by auto
  with s d1(1) show "upserts_same d1 c1"
    by (simp add: upserts_same_def fold_insert_event_twice)
next
  fix cps' c c1
  assume "corr_params L attrs = Inr cps'" and s: "upserts_same d1 c"
    and call: "execute_batch_corr W cps' c = (None, c1)"
  with first(4) have "cps' = cps" by simp
  with execute_batch_corr_ok [OF call] s d1(2) show "upserts_same d1 c1"
    by (simp add: upserts_same_def fold_insert_corr_twice)
next
  fix rows c c1
  assume "upserts_same d1 c" and "copy_expert W rows c = (None, c1)"
  then show "upserts_same d1 c1"
    by (auto simp: upserts_same_def dest!: copy_expert_ok)
next
  fix c c1
  assume "upserts_same d1 c" and "update_sync_state W c = (None, c1)"
  then show "upserts_same d1 c1"
    by (auto simp: upserts_same_def dest!: update_sync_state_ok)
next
  fix c c1
  assume "upserts_same d1 c" and "commit (db_fault W) c = (None, c1)"
  then show "upserts_same d1 c1"
    by (auto simp: upserts_same_def dest!: commit_ok)
qed

text \<open>The sample run ends without an exception on any database, when the connection does
  not fail.\<close>

lemma sample_backfill_again:
  "\<exists>c. backfill_main lib0 (world0 (\<lambda>k. False) t) d = Some (None, c)"
  by (simp add: backfill_main_def sample_fetch sample_run)

lemma sample_sync_ok:
  "\<exists>c. sync_main lib0 (world0 (\<lambda>k. False) t) (db0 S) = (None, c)
       \<and> committed c = \<lparr>events_minimal = [row10], attribute_correlations = [edgeAB],
            attributes_minimal = [rowA, rowB], sync_state = set_last_run t S\<rparr>"
  by (simp add: sync_main_def sample_delta sample_run row10_def)

lemma backfill_success:
  assumes "backfill_main L W d = Some (None, c)"
  obtains attrs iv evs em eps erows cps rows where
    "fetch_all_attributes W = Some (Inr attrs)"
    "prepare L W attrs = Inr (iv, evs, em)" "evt_params L evs = Inr eps"
    "mapE (event_row_of L) eps = Inr erows" "corr_params L attrs = Inr cps"
    "write_csv L em iv attrs = Inr rows"
    "events_minimal (committed c) = fold insert_event erows (events_minimal d)"
    "attribute_correlations (committed c) = fold insert_corr cps (attribute_correlations d)"
    "attributes_minimal (committed c) = attributes_minimal d @ rows"
proof -
  from assms obtain attrs where attrs: "fetch_all_attributes W = Some (Inr attrs)"
    and pipe: "pipeline L W CSV_CHUNK_backfill attrs (connect d) = (None, c)"
    by (auto simp: backfill_main_def split: option.splits sum.splits)
  from pipeline_success [OF pipe] obtain iv evs em eps erows cps rows where
    *: "prepare L W attrs = Inr (iv, evs, em)" "evt_params L evs = Inr eps"
      "mapE (event_row_of L) eps = Inr erows" "corr_params L attrs = Inr cps"
      "write_csv L em iv attrs = Inr rows"
    and c: "committed c = \<lparr>events_minimal = fold insert_event erows (events_minimal (working (connect d))),
                 attribute_correlations = fold insert_corr cps (attribute_correlations (working (connect d))),
                 attributes_minimal = attributes_minimal (working (connect d)) @ rows,
                 sync_state = set_last_run (now_commit W) (sync_state (working (connect d)))\<rparr>"
    by (elim exE conjE)
  have "events_minimal (committed c) = fold insert_event erows (events_minimal d)"
    "attribute_correlations (committed c) = fold insert_corr cps (attribute_correlations d)"
    "attributes_minimal (committed c) = attributes_minimal d @ rows"
    by (simp_all add: c connect_def)
  with attrs * show ?thesis by (rule that)
qed

subsection \<open>The chunks of a load\<close>

lemma load_chunks_append:
  "load_chunks L W em iv (xs @ ys) c = thenDB (load_chunks L W em iv xs c) (load_chunks L W em iv ys)"
proof (induction xs arbitrary: c)
  case Nil
  show ?case by simp
next
  case (Cons ch xs)
  show ?case
  proof (cases "write_csv L em iv ch")
    case (Inl e)
    then show ?thesis by simp
  next
    case (Inr rows)
    obtain e1 c1 where c1: "copy_expert W rows c = (e1, c1)" by (cases "copy_expert W rows c")
    obtain e2 c2 where c2: "commit (db_fault W) c1 = (e2, c2)" by (cases "commit (db_fault W) c1")
    show ?thesis
      using Inr c1 c2 Cons.IH [of c2] by (cases e1; cases e2) simp_all
  qed
qed

lemma copy_sizes_append: "copy_sizes (xs @ ys) = copy_sizes xs @ copy_sizes ys"
  by (simp add: copy_sizes_def)

lemma copy_sizes_chunks:
  "copy_sizes (concat (map (\<lambda>chunk. [OpCopy chunk, OpCommit]) xss)) = map length xss"
  by (induction xss) (simp_all add: copy_sizes_def)

lemma mapE_take: "mapE f xs = Inr ys \<Longrightarrow> mapE f (take k xs) = Inr (take k ys)"
  by (simp add: mapE_Inr_iff list_all2_takeI)

lemma mapE_replicate: "f x = Inr y \<Longrightarrow> mapE f (replicate k x) = Inr (replicate k y)"
  by (induction k) simp_all

lemma length_chunked: "0 < n \<Longrightarrow> length (chunked n xs) = (length xs + n - 1) div n"
  using map_length_chunked [of n xs] length_chunk_sizes [of n "length xs"]
  by (metis length_map)

text \<open>A load on a connection that does not fail, of attributes that all stage.\<close>

lemma load_attributes_ok:
  assumes n: "0 < n" and nofault: "\<forall>k. \<not> db_fault W k" and rows: "write_csv L em iv attrs = Inr rows"
  obtains c' where "load_attributes L W n em iv attrs c = (None, c')"
    "oplog c' = oplog c @ concat (map (\<lambda>chunk. [OpCopy chunk, OpCommit]) (chunked n rows))"
    "working c' = (working c)\<lparr>attributes_minimal := attributes_minimal (working c) @ rows\<rparr>"
proof -
  from rows have "mapE (write_csv L em iv) (chunked n attrs) = Inr (chunked n rows)"
    unfolding write_csv_def by (intro mapE_chunked n)
  from load_chunks_total [OF nofault this] obtain c' where
    "load_chunks L W em iv (chunked n attrs) c = (None, c')"
    by blast
  with n have run: "load_attributes L W n em iv attrs c = (None, c')"
    by (simp add: load_attributes_def)
  from load_attributes_success [OF run] rows
  have "oplog c' = oplog c @ concat (map (\<lambda>chunk. [OpCopy chunk, OpCommit]) (chunked n rows))"
    "working c' = (working c)\<lparr>attributes_minimal := attributes_minimal (working c) @ rows\<rparr>"
    by auto
  with run show ?thesis by (rule that)
qed

text \<open>The connection after the first \<open>k\<close> chunks of a load that succeeds.\<close>

lemma load_chunks_after:
  assumes n: "0 < n" and run: "load_chunks L W em iv (chunked n attrs) c = (None, c')"
    and rows: "write_csv L em iv attrs = Inr rows"
    and k: "1 \<le> k" "k \<le> length (chunked n attrs)"
  shows "\<exists>ck. load_chunks L W em iv (take k (chunked n attrs)) c = (None, ck)
          \<and> load_chunks L W em iv (drop k (chunked n attrs)) ck = (None, c')
          \<and> attributes_minimal (committed ck) = attributes_minimal (working c) @ take (k * n) rows"
proof -
  let ?chs = "chunked n attrs"
  have "load_chunks L W em iv (take k ?chs @ drop k ?chs) c = (None, c')"
    using run by simp
  then have "thenDB (load_chunks L W em iv (take k ?chs) c) (load_chunks L W em iv (drop k ?chs)) = (None, c')"
    by (simp only: load_chunks_append)
  then obtain ck where first: "load_chunks L W em iv (take k ?chs) c = (None, ck)"
    and rest: "load_chunks L W em iv (drop k ?chs) ck = (None, c')"
    by (cases rule: thenDB_cases) simp_all
  from load_chunks_success [OF first] obtain rowss where
    rowss: "mapE (write_csv L em iv) (take k ?chs) = Inr rowss"
    and w: "working ck = (working c)\<lparr>attributes_minimal := attributes_minimal (working c) @ concat rowss\<rparr>"
    and cm: "take k ?chs \<noteq> [] \<longrightarrow> committed ck = working ck"
    by blast
  have "take k ?chs \<noteq> []" using k by auto
  with cm have cm': "committed ck = working ck" by simp
  from rowss have "write_csv L em iv (concat (take k ?chs)) = Inr (concat rowss)"
    unfolding write_csv_def by (rule mapE_concat)
  then have "write_csv L em iv (take (k * n) attrs) = Inr (concat rowss)"
    by (simp add: concat_take_chunked n)
  moreover from rows have "write_csv L em iv (take (k * n) attrs) = Inr (take (k * n) rows)"
    unfolding write_csv_def by (rule mapE_take)
  ultimately have "concat rowss = take (k * n) rows" by simp
  with first rest w cm' show ?thesis by simp
qed

lemma sample_csv_rowB: "csv_row lib0 event_map0 id_to_value0 attrB = Inr rowB"
  using sample_write_csv by (auto simp: write_csv_def split: sum.splits)

subsection \<open>The tasks of the geo script\<close>





subsection \<open>The sample runs of the sync and of the geo script\<close>

lemma world1_sel [simp]:
  "db_fault (world1 f t) = f" "now_commit (world1 f t) = t" "now_start (world1 f t) = t"
  by (simp_all add: world1_def)

lemma sample_delta_edited: "delta_attributes (world1 f t) ts = Inr (JList [attrA2])"
  by (simp add: delta_attributes_def world1_def attribute_block_def body_of_def)

lemma sample_prepare_edited:
  "prepare lib0 (world1 f t) [attrA2] = Inr (Map.empty(1 \<mapsto> JStr ''192.0.2.1''), [event10], event_map0)"
  by (simp add: prepare_def id_value_pair_def int_field_def fetch_ev_def event_pair_def dict_of_def
      lib0_def world1_def attrA2_def event10_def event_map0_def)

lemma sample_corr_params_edited: "corr_params lib0 [attrA2] = Inr []"
  by (simp add: corr_params_def corr_params_of_def related_attributes_def int_field_def
      lib0_def attrA2_def)

lemma sample_write_csv_edited:
  "write_csv lib0 event_map0 (Map.empty(1 \<mapsto> JStr ''192.0.2.1'')) [attrA2] = Inr [rowA2]"
  by (simp add: write_csv_def csv_row_def rel_part_def galaxy_names_def created_ts_cell_def
      csv_cell_def fmt_def dict_get_def as_str_def related_attributes_def int_field_def parse_ts_def
      lib0_def attrA2_def event10_def event_map0_def rowA2_def)

lemma sample_backfill_loaded:
  "\<exists>c. backfill_main lib0 (world0 (\<lambda>k. False) t) (db0 S) = Some (None, c)
       \<and> committed c = db_loaded (set_last_run t S)"
  using sample_backfill_ok [of t S] by (simp add: db_loaded_def)

lemma sample_sync_edited:
  "\<exists>c. sync_main lib0 (world1 (\<lambda>k. False) t) (db_loaded S) = (None, c)
       \<and> committed c = db_edited (set_last_run t S)"
  by (simp add: sync_main_def db_call_def connect_def sample_delta_edited
      pipeline_def sample_prepare_edited upsert_phase_def sample_evt_params sample_corr_params_edited
      execute_batch_evt_def execute_batch_corr_def copy_expert_def update_sync_state_def
      commit_def event_row_of_def lib0_int10 insert_event_def
      load_attributes_def chunked_rec CSV_CHUNK_sync_def sample_write_csv_edited
      advance_checkpoint_def db_loaded_def db_edited_def row10_def)

lemmas geo_run =
  geo_main_def db_call_def commit_def connect_def geo_updates_def select_rows_def selected_def
  geo_types_def enrich_def city_lookup_def List.map_filter_simps chunked_rec BATCH_SIZE_def
  apply_update_def set_geo_def geo0_def rowA_def rowB_def rowA2_def

lemma sample_geo_updates_loaded: "geo_updates geo0 (db_loaded S) = [\<lparr>u_id = 2, u_geo = hit0\<rparr>]"
  by (simp add: geo_run db_loaded_def)

lemma sample_geo_loaded:
  "geo_main geo0 (db_loaded S)
     = (None, \<lparr>committed = (db_loaded S)\<lparr>attributes_minimal := [rowA, set_geo hit0 rowB]\<rparr>,
               working = (db_loaded S)\<lparr>attributes_minimal := [rowA, set_geo hit0 rowB]\<rparr>,
               oplog = [OpSelectGeo, OpUpdateGeo 1, OpCommit]\<rparr>)"
  by (simp add: geo_run db_loaded_def)


section \<open>The claims\<close>

text \<open>
  C1. The checkpoint \<^verbatim>\<open>sync_state.last_run\<close> is written only after the chunked load of the
  attributes has completed, and it is set to the wall-clock time read at that moment, not
  to a timestamp of the fetched records. For a run of the backfill or of the sync script
  that ends with the exception \<open>err\<close> and leaves the connection \<open>c\<close>: a run that raises
  leaves the stored \<^verbatim>\<open>sync_state\<close> as it found it; a run that changes it has set
  \<^verbatim>\<open>last_run\<close> of the row 1 to \<open>now_commit\<close> and has copied and committed one row for
  every attribute it fetched; and in every case the committed attribute table is the one
  the run found followed by the rows of every chunk whose transaction was committed, so a
  failure rolls back no committed chunk.
\<close>

theorem checkpoint_after_load:
  assumes "run_script s L W d = Some (err, c)"
  shows "(err \<noteq> None \<longrightarrow> sync_state (committed c) = sync_state d)
       \<and> (sync_state (committed c) \<noteq> sync_state d \<longrightarrow>
            sync_state (committed c) = set_last_run (now_commit W) (sync_state d)
            \<and> (\<exists>attrs. fetched_attributes s W d = Some (Inr attrs)
                 \<and> length (committed_copies (oplog c)) = length attrs))
       \<and> attributes_minimal (committed c) = attributes_minimal d @ committed_copies (oplog c)"
  using assms
proof (cases rule: run_script_cases)
  case early
  then show ?thesis by (simp add: committed_copies_def)
next
  case (pipeline attrs c0)
  have agree0: "log_agrees d c0"
    using pipeline(2,3,4) by (simp add: log_agrees_def)
  have agree: "log_agrees d c"
    using pipeline(5) agree0 by (rule log_agrees_pipeline)
  then have rows: "attributes_minimal (committed c) = attributes_minimal d @ committed_copies (oplog c)"
    by (simp add: log_agrees_def committed_copies_def)
  have "sync_untouched (sync_state d) c0"
    using pipeline(2,3) by (simp add: sync_untouched_def)
  with pipeline(5) have cp: "err \<noteq> None \<longrightarrow> sync_state (committed c) = sync_state d"
    "err = None \<longrightarrow> sync_state (committed c) = set_last_run (now_commit W) (sync_state d)"
    using pipeline_checkpoint by blast+
  have "length (committed_copies (oplog c)) = length attrs" if "err = None"
  proof -
    from pipeline(5) that have "pipeline L W (chunk_of s) attrs c0 = (None, c)" by simp
    from pipeline_success [OF this] obtain iv em rows' where
      "write_csv L em iv attrs = Inr rows'"
      "attributes_minimal (committed c) = attributes_minimal (working c0) @ rows'"
      by auto
    with rows pipeline(3) show ?thesis
      by (auto simp: write_csv_def dest: mapE_length)
  qed
  with cp rows pipeline(1) show ?thesis by auto
qed

theorem checkpoint_after_load_witness:
  "(\<exists>c. run_script Backfill lib0 (world0 (\<lambda>k. k = 3) 1700000000000000) (db0 [(1, Some 5)])
           = Some (Some DatabaseError, c)
        \<and> sync_state (committed c) = [(1, Some 5)]
        \<and> attributes_minimal (committed c) = [])
   \<and> (\<exists>c. run_script Backfill lib0 (world0 (\<lambda>k. False) 1700000000000000) (db0 [(1, Some 5)])
           = Some (None, c)
        \<and> sync_state (committed c) = [(1, Some 1700000000000000)]
        \<and> attributes_minimal (committed c) = committed_copies (oplog c)
        \<and> length (committed_copies (oplog c)) = 2)"
proof
  obtain c where run: "run_script Backfill lib0 (world0 (\<lambda>k. k = 3) 1700000000000000) (db0 [(1, Some 5)])
      = Some (Some DatabaseError, c)"
    and log: "oplog c = [OpInsertEvents 1, OpInsertCorrelations 1, OpCommit]"
    using sample_backfill_fault [of 1700000000000000 "[(1, Some 5)]"]
    by (auto simp: run_script_def)
  from checkpoint_after_load [OF run] log
  have "sync_state (committed c) = [(1, Some 5)]" "attributes_minimal (committed c) = []"
    by (simp_all add: db0_def committed_copies_def)
  with run show "\<exists>c. run_script Backfill lib0 (world0 (\<lambda>k. k = 3) 1700000000000000) (db0 [(1, Some 5)])
           = Some (Some DatabaseError, c)
        \<and> sync_state (committed c) = [(1, Some 5)]
        \<and> attributes_minimal (committed c) = []"
    by blast
next
  obtain c where run: "run_script Backfill lib0 (world0 (\<lambda>k. False) 1700000000000000) (db0 [(1, Some 5)])
      = Some (None, c)"
    and s: "sync_state (committed c) = [(1, Some 1700000000000000)]"
    using sample_backfill_ok [of 1700000000000000 "[(1, Some 5)]"]
    by (auto simp: run_script_def set_last_run_def)
  have f: "fetched_attributes Backfill (world0 (\<lambda>k. False) 1700000000000000) (db0 [(1, Some 5)])
      = Some (Inr [attrA, attrB])"
    by (simp add: fetched_attributes_def sample_fetch)
  from checkpoint_after_load [OF run] s f
  have "attributes_minimal (committed c) = committed_copies (oplog c)"
    "length (committed_copies (oplog c)) = 2"
    by (simp_all add: db0_def)
  with run s show "\<exists>c. run_script Backfill lib0 (world0 (\<lambda>k. False) 1700000000000000) (db0 [(1, Some 5)])
           = Some (None, c)
        \<and> sync_state (committed c) = [(1, Some 1700000000000000)]
        \<and> attributes_minimal (committed c) = committed_copies (oplog c)
        \<and> length (committed_copies (oplog c)) = 2"
    by blast
qed

text \<open>
  C7. Correlation extraction emits exactly one candidate edge for each related-attribute
  entry of each attribute, in their order: when \<^verbatim>\<open>corr_params\<close> is built without an
  exception, its elements correspond one to one to the pairs of an attribute and one of its
  entries, and the edge of a pair has \<^verbatim>\<open>attr_id\<close> from the carrying attribute,
  \<^verbatim>\<open>related_attr_id\<close> and \<^verbatim>\<open>related_event_id\<close> from the entry, and the relation, the two
  timestamps and the comment of the entry; no other edge is made. An attribute without
  entries contributes no edge.
\<close>

theorem corr_params_one_edge_per_entry:
  assumes "corr_params L attrs = Inr edges"
  shows "(\<exists>ps. related_entries attrs = Inr ps
            \<and> list_all2 (\<lambda>p e. is_edge_of L (fst p) (snd p) e) ps edges)
       \<and> (\<forall>a\<in>set attrs. related_attributes a = Inr [] \<longrightarrow> corr_params_of L a = Inr [])"
proof
  from assms obtain ess where ess: "mapE (corr_params_of L) attrs = Inr ess"
    and edges: "edges = concat ess"
    by (auto simp: corr_params_def bindE_eq_Inr)
  from mapE_corr_params_of [OF ess] obtain pss where
    pss: "mapE (\<lambda>a. bindE (related_attributes a) (\<lambda>rs. Inr (map (Pair a) rs))) attrs = Inr pss"
    and all: "list_all2 (list_all2 (\<lambda>p e. is_edge_of L (fst p) (snd p) e)) pss ess"
    by blast
  have "related_entries attrs = Inr (concat pss)"
    by (simp add: related_entries_def pss)
  moreover have "list_all2 (\<lambda>p e. is_edge_of L (fst p) (snd p) e) (concat pss) edges"
    unfolding edges using all by (rule concat_all2)
  ultimately show "\<exists>ps. related_entries attrs = Inr ps
      \<and> list_all2 (\<lambda>p e. is_edge_of L (fst p) (snd p) e) ps edges"
    by blast
  show "\<forall>a\<in>set attrs. related_attributes a = Inr [] \<longrightarrow> corr_params_of L a = Inr []"
  proof (intro ballI impI)
    fix a assume a: "a \<in> set attrs" and none: "related_attributes a = Inr []"
    from ess a obtain es where "corr_params_of L a = Inr es"
      by (auto simp: mapE_Inr_iff list_all2_conv_all_nth in_set_conv_nth)
    with none show "corr_params_of L a = Inr []"
      by (auto simp: corr_params_of_def bindE_eq_Inr)
  qed
qed

theorem corr_params_one_edge_per_entry_witness:
  "corr_params lib0 [attrA, attrB] = Inr [edgeAB]
   \<and> related_entries [attrA, attrB] = Inr [(attrA, entryB)]
   \<and> is_edge_of lib0 attrA entryB edgeAB
   \<and> related_attributes attrB = Inr [] \<and> corr_params_of lib0 attrB = Inr []"
proof -
  have entries: "related_entries [attrA, attrB] = Inr [(attrA, entryB)]"
    by (simp add: related_entries_def related_attributes_def attrA_def attrB_def)
  have none: "related_attributes attrB = Inr []"
    by (simp add: related_attributes_def attrB_def)
  from corr_params_one_edge_per_entry [OF sample_corr_params] entries none
  show ?thesis
    by (simp add: sample_corr_params)
qed

text \<open>
  C2. In a run of the sync script the lower bound of the fetch window, \<^verbatim>\<open>since\<close>, is the
  stored \<^verbatim>\<open>last_run\<close> when the row 1 of \<^verbatim>\<open>sync_state\<close> (the first one the query returns)
  has one; when the table has no row 1, or the \<^verbatim>\<open>last_run\<close> of that row is null, it is
  the time at the start minus four hours (14400000000 microseconds). The delta request
  of the run is made for the whole seconds of \<^verbatim>\<open>since\<close> and for no other time: the run
  is the same on every platform that answers that request the same; when the query of
  \<^verbatim>\<open>sync_state\<close> has not failed, an exception of the request for that time is the
  exception the run ends with, and a list of attributes in its answer is the list the
  rest of the run works on.
\<close>

theorem delta_window_lower_bound:
  "(filter (\<lambda>r. fst r = 1) (sync_state d) = (1, Some t) # rest \<longrightarrow> sync_since W d = t)
   \<and> (filter (\<lambda>r. fst r = 1) (sync_state d) = [] \<longrightarrow> sync_since W d = now_start W - 14400000000)
   \<and> (filter (\<lambda>r. fst r = 1) (sync_state d) = (1, None) # rest
        \<longrightarrow> sync_since W d = now_start W - 14400000000)
   \<and> (f (since_ts (sync_since W d)) = post_attributes_since W (since_ts (sync_since W d))
        \<longrightarrow> sync_main L (W\<lparr>post_attributes_since := f\<rparr>) d = sync_main L W d)
   \<and> (\<not> db_fault W 0 \<and> post_attributes_since W (since_ts (sync_since W d)) = Inl e
        \<longrightarrow> fst (sync_main L W d) = Some e)
   \<and> (\<not> db_fault W 0 \<and> post_attributes_since W (since_ts (sync_since W d)) = Inr body
          \<and> attribute_block body = Inr (JList (a # attrs))
        \<longrightarrow> sync_main L W d
            = pipeline L W CSV_CHUNK_sync (a # attrs) ((connect d)\<lparr>oplog := [OpSelectSyncState]\<rparr>))"
proof (intro conjI impI)
  assume "filter (\<lambda>r. fst r = 1) (sync_state d) = (1, Some t) # rest"
  then show "sync_since W d = t"
    by (simp add: sync_since_def since_of_def select_first_row)
next
  assume "filter (\<lambda>r. fst r = 1) (sync_state d) = []"
  then show "sync_since W d = now_start W - 14400000000"
    by (simp add: sync_since_def since_of_def select_no_row hours_def INTERVAL_H_def)
next
  assume "filter (\<lambda>r. fst r = 1) (sync_state d) = (1, None) # rest"
  then show "sync_since W d = now_start W - 14400000000"
    by (simp add: sync_since_def since_of_def select_first_row hours_def INTERVAL_H_def)
next
  let ?W = "W\<lparr>post_attributes_since := f\<rparr>"
  assume f: "f (since_ts (sync_since W d)) = post_attributes_since W (since_ts (sync_since W d))"
  have since: "sync_since ?W x = sync_since W x" for x
    by (simp add: sync_since_def since_of_def split: option.splits)
  have delta: "delta_attributes ?W (since_ts (sync_since W d))
      = delta_attributes W (since_ts (sync_since W d))"
    using f by (simp add: delta_attributes_def)
  have pipe: "pipeline L ?W n attrs c = pipeline L W n attrs c" for n attrs c
    by (rule pipeline_world) simp_all
  obtain e0 c0 where c0: "db_call (db_fault W) OpSelectSyncState (\<lambda>x. x) (connect d) = (e0, c0)"
    by (cases "db_call (db_fault W) OpSelectSyncState (\<lambda>x. x) (connect d)")
  show "sync_main L ?W d = sync_main L W d"
  proof (cases e0)
    case (Some e)
    with c0 show ?thesis by (simp add: sync_main_def)
  next
    case None
    with c0 have "working c0 = d" by (auto elim!: db_call_cases simp: connect_def)
    with c0 None show ?thesis
      by (simp add: sync_main_def since delta pipe split: sum.splits)
  qed
next
  assume "\<not> db_fault W 0 \<and> post_attributes_since W (since_ts (sync_since W d)) = Inl e"
  then show "fst (sync_main L W d) = Some e"
    by (simp add: sync_main_def db_call_def connect_def delta_attributes_def)
next
  assume "\<not> db_fault W 0 \<and> post_attributes_since W (since_ts (sync_since W d)) = Inr body
      \<and> attribute_block body = Inr (JList (a # attrs))"
  then show "sync_main L W d
      = pipeline L W CSV_CHUNK_sync (a # attrs) ((connect d)\<lparr>oplog := [OpSelectSyncState]\<rparr>)"
    by (simp add: sync_main_def db_call_def connect_def delta_attributes_def)
qed

theorem delta_window_lower_bound_witness:
  "sync_since (world0 (\<lambda>k. False) 1700000000000000) (db0 [(1, Some 1699990000000000)]) = 1699990000000000
   \<and> sync_since (world0 (\<lambda>k. False) 1700000000000000) (db0 []) = 1699985600000000
   \<and> sync_since (world0 (\<lambda>k. False) 1700000000000000) (db0 [(1, None)]) = 1699985600000000
   \<and> sync_main lib0 ((world0 (\<lambda>k. False) 1700000000000000)
          \<lparr>post_attributes_since := (\<lambda>ts. if ts = 1699990000 then Inr (body_of [attrA, attrB]) else Inl HTTPError)\<rparr>)
        (db0 [(1, Some 1699990000000000)])
      = sync_main lib0 (world0 (\<lambda>k. False) 1700000000000000) (db0 [(1, Some 1699990000000000)])
   \<and> fst (sync_main lib0 ((world0 (\<lambda>k. False) 1700000000000000)
          \<lparr>post_attributes_since := (\<lambda>ts. if ts = 1699990000 then Inl HTTPError else Inr (body_of [attrA, attrB]))\<rparr>)
        (db0 [(1, Some 1699990000000000)])) = Some HTTPError
   \<and> sync_main lib0 ((world0 (\<lambda>k. False) 1700000000000000)
          \<lparr>post_attributes_since := (\<lambda>ts. if ts = 1699990000 then Inr (body_of [attrA, attrB]) else Inl HTTPError)\<rparr>)
        (db0 [(1, Some 1699990000000000)])
      = pipeline lib0 ((world0 (\<lambda>k. False) 1700000000000000)
          \<lparr>post_attributes_since := (\<lambda>ts. if ts = 1699990000 then Inr (body_of [attrA, attrB]) else Inl HTTPError)\<rparr>)
          CSV_CHUNK_sync [attrA, attrB]
          ((connect (db0 [(1, Some 1699990000000000)]))\<lparr>oplog := [OpSelectSyncState]\<rparr>)
   \<and> fst (sync_main lib0 ((world0 (\<lambda>k. False) 1700000000000000)
          \<lparr>post_attributes_since := (\<lambda>ts. if ts = 1699990000 then Inr (body_of [attrA, attrB]) else Inl HTTPError)\<rparr>)
        (db0 [(1, Some 1699990000000000)])) = None"
proof -
  let ?W = "world0 (\<lambda>k. False) 1700000000000000"
  let ?d = "db0 [(1, Some 1699990000000000)]"
  let ?f = "\<lambda>ts::int. if ts = 1699990000 then Inr (body_of [attrA, attrB]) else Inl HTTPError"
  let ?g = "\<lambda>ts::int. if ts = 1699990000 then Inl HTTPError else Inr (body_of [attrA, attrB])"
  have 1: "sync_since ?W ?d = 1699990000000000"
    using delta_window_lower_bound [of ?d 1699990000000000 "[]" ?W]
    by (simp add: db0_def)
  have 2: "sync_since ?W (db0 []) = 1699985600000000"
    using delta_window_lower_bound [of "db0 []" 0 "[]" ?W] by (simp add: db0_def)
  have 3: "sync_since ?W (db0 [(1, None)]) = 1699985600000000"
    using delta_window_lower_bound [of "db0 [(1, None)]" 0 "[]" ?W] by (simp add: db0_def)
  have 4: "sync_main lib0 (?W\<lparr>post_attributes_since := ?f\<rparr>) ?d = sync_main lib0 ?W ?d"
    using delta_window_lower_bound [of ?d 0 "[]" ?W ?f lib0]
    by (simp add: 1 since_ts_def) (simp add: world0_def)
  have since_f: "sync_since (?W\<lparr>post_attributes_since := ?f\<rparr>) ?d = 1699990000000000"
    using delta_window_lower_bound [of ?d 1699990000000000 "[]" "?W\<lparr>post_attributes_since := ?f\<rparr>"]
    by (simp add: db0_def)
  have since_g: "sync_since (?W\<lparr>post_attributes_since := ?g\<rparr>) ?d = 1699990000000000"
    using delta_window_lower_bound [of ?d 1699990000000000 "[]" "?W\<lparr>post_attributes_since := ?g\<rparr>"]
    by (simp add: db0_def)
  have 5: "fst (sync_main lib0 (?W\<lparr>post_attributes_since := ?g\<rparr>) ?d) = Some HTTPError"
    using delta_window_lower_bound [of ?d 0 "[]" "?W\<lparr>post_attributes_since := ?g\<rparr>" ?g lib0 HTTPError]
    by (simp add: since_g since_ts_def)
  have 6: "sync_main lib0 (?W\<lparr>post_attributes_since := ?f\<rparr>) ?d
      = pipeline lib0 (?W\<lparr>post_attributes_since := ?f\<rparr>) CSV_CHUNK_sync [attrA, attrB]
          ((connect ?d)\<lparr>oplog := [OpSelectSyncState]\<rparr>)"
    using delta_window_lower_bound [of ?d 0 "[]" "?W\<lparr>post_attributes_since := ?f\<rparr>" ?f lib0 HTTPError
        "body_of [attrA, attrB]" attrA "[attrB]"]
    by (simp add: since_f since_ts_def attribute_block_def body_of_def)
  have 7: "fst (sync_main lib0 (?W\<lparr>post_attributes_since := ?f\<rparr>) ?d) = None"
    using sample_sync_ok [of 1700000000000000 "[(1, Some 1699990000000000)]"]
    by (auto simp: 4)
  from 1 2 3 4 5 6 7 show ?thesis by blast
qed

text \<open>
  C6. The backfill requests the pages 1, 2, 3, ... and stops at the first page whose block
  is empty: when the pages before the page \<open>n\<close> have blocks that are not empty, with the
  elements \<open>blocks p\<close>, and the block of the page \<open>n\<close> is empty, the loop ends and the
  attributes fetched are the elements of the pages 1 to \<open>n - 1\<close>, in this order.
\<close>

theorem fetch_all_attributes_until_first_empty_page:
  assumes "1 \<le> n"
    and "\<forall>p. 1 \<le> p \<and> p < n \<longrightarrow>
           (\<exists>b. page_block (post_attributes_page W) p = Inr b \<and> truthy b \<and> py_iter b = Inr (blocks p))"
    and "page_block (post_attributes_page W) n = Inr b" and "\<not> truthy b"
  shows "fetch_all_attributes W = Some (Inr (concat (map blocks [1..<n])))"
proof -
  have "fetch_pages (post_attributes_page W) 1 [] = Some (Inr ([] @ concat (map blocks [1..<n])))"
    using assms(2) by (intro fetch_pages_until_empty [OF _ assms(3,4,1)]) simp
  then show ?thesis by (simp add: fetch_all_attributes_def)
qed

theorem fetch_all_attributes_until_first_empty_page_witness:
  "fetch_all_attributes (world0 (\<lambda>k. False) 1700000000000000) = Some (Inr [attrA, attrB])"
proof -
  let ?W = "world0 (\<lambda>k. False) 1700000000000000"
  have 1: "\<forall>p. 1 \<le> p \<and> p < 2 \<longrightarrow>
      (\<exists>b. page_block (post_attributes_page ?W) p = Inr b \<and> truthy b \<and> py_iter b = Inr ((\<lambda>p. [attrA, attrB]) p))"
  proof (intro allI impI)
    fix p :: nat assume "1 \<le> p \<and> p < 2"
    then have "p = 1" by simp
    then show "\<exists>b. page_block (post_attributes_page ?W) p = Inr b \<and> truthy b \<and> py_iter b = Inr [attrA, attrB]"
      by (simp add: page_block_def world0_def attribute_block_def body_of_def)
  qed
  have 2: "page_block (post_attributes_page ?W) 2 = Inr (JList [])"
    by (simp add: page_block_def world0_def attribute_block_def body_of_def)
  have "fetch_all_attributes ?W = Some (Inr (concat (map (\<lambda>p. [attrA, attrB]) [1..<2])))"
    by (rule fetch_all_attributes_until_first_empty_page [OF _ 1 2]) simp_all
  then show ?thesis by (simp add: upt_rec)
qed

text \<open>
  C9. Advancing the checkpoint is an \<^verbatim>\<open>UPDATE\<close> of the row 1 and nothing else: when
  \<^verbatim>\<open>sync_state\<close> has no row 1, the statement leaves the database as it is, no run of any
  of the three scripts creates the row, and so, after any number of runs, a sync run still
  takes the start time minus four hours as its lower bound.
\<close>

theorem checkpoint_row_never_created:
  assumes "\<forall>r\<in>set (sync_state d). fst r \<noteq> 1" and "after_runs d d'"
  shows "sync_state d' = sync_state d
       \<and> d'\<lparr>sync_state := set_last_run t (sync_state d')\<rparr> = d'
       \<and> sync_since W d' = now_start W - 14400000000"
proof -
  from after_runs_no_row [OF assms(2,1)] have same: "sync_state d' = sync_state d" .
  with assms(1) have none: "\<forall>r\<in>set (sync_state d'). fst r \<noteq> 1" by simp
  then have "filter (\<lambda>r. fst r = 1) (sync_state d') = []"
    by (simp add: filter_empty_conv)
  then have "sync_since W d' = now_start W - 14400000000"
    by (simp add: sync_since_def since_of_def select_no_row hours_def INTERVAL_H_def)
  with same none show ?thesis
    by (simp add: set_last_run_no_row)
qed

theorem checkpoint_row_never_created_witness:
  "\<exists>c. run_script Backfill lib0 (world0 (\<lambda>k. False) 1700000000000000) (db0 []) = Some (None, c)
       \<and> sync_state (committed c) = []
       \<and> (committed c)\<lparr>sync_state := set_last_run 1700000000000000 (sync_state (committed c))\<rparr> = committed c
       \<and> sync_since (world0 (\<lambda>k. False) 1800000000000000) (committed c) = 1799985600000000"
proof -
  obtain c where run: "run_script Backfill lib0 (world0 (\<lambda>k. False) 1700000000000000) (db0 [])
      = Some (None, c)"
    using sample_backfill_ok [of 1700000000000000 "[]"] by (auto simp: run_script_def)
  have "after_runs (db0 []) (committed c)"
    using after_runs.start run by (rule after_runs.script)
  moreover have "\<forall>r\<in>set (sync_state (db0 [])). fst r \<noteq> 1"
    by (simp add: db0_def)
  ultimately have *: "sync_state (committed c) = sync_state (db0 [])
       \<and> (committed c)\<lparr>sync_state := set_last_run 1700000000000000 (sync_state (committed c))\<rparr> = committed c
       \<and> sync_since (world0 (\<lambda>k. False) 1800000000000000) (committed c)
           = now_start (world0 (\<lambda>k. False) 1800000000000000) - 14400000000"
    by (rule checkpoint_row_never_created [rotated])
  from * have s1: "sync_state (committed c) = []"
    by (simp add: db0_def)
  from * have s2: "(committed c)\<lparr>sync_state := set_last_run 1700000000000000 (sync_state (committed c))\<rparr>
      = committed c"
    by blast
  from * have "sync_since (world0 (\<lambda>k. False) 1800000000000000) (committed c)
      = now_start (world0 (\<lambda>k. False) 1800000000000000) - 14400000000"
    by blast
  then have s3: "sync_since (world0 (\<lambda>k. False) 1800000000000000) (committed c) = 1799985600000000"
    by simp
  from run s1 s2 s3 show ?thesis by blast
qed

text \<open>
  C10. A run of the geo script changes nothing but the four geography columns of rows of
  \<^verbatim>\<open>attributes_minimal\<close> whose id is the id of one of its updates: whatever the run
  commits, and however it ends, the committed attribute table has the rows it had, in the
  same places, each with every other column as before, and unchanged altogether when no
  update carries its id; the three other tables are as before.
\<close>

theorem geo_update_frame:
  assumes "geo_main G d = (err, c)"
  shows "list_all2 (\<lambda>r r'. same_but_geo r r' \<and> (a_id r \<notin> u_id ` set (geo_updates G d) \<longrightarrow> r' = r))
           (attributes_minimal d) (attributes_minimal (committed c))
       \<and> events_minimal (committed c) = events_minimal d
       \<and> attribute_correlations (committed c) = attribute_correlations d
       \<and> sync_state (committed c) = sync_state d"
  using geo_main_kept [OF assms] by (simp add: geo_kept_def geo_frame_def)

theorem geo_update_frame_witness:
  "\<exists>c. geo_main geo0 (db_loaded []) = (None, c)
       \<and> list_all2 same_but_geo [rowA, rowB] (attributes_minimal (committed c))
       \<and> attributes_minimal (committed c) ! 0 = rowA
       \<and> country_name (attributes_minimal (committed c) ! 1) = Some ''Exampleland''
       \<and> events_minimal (committed c) = [row10]
       \<and> attribute_correlations (committed c) = [edgeAB]
       \<and> sync_state (committed c) = []"
proof -
  obtain c where run: "geo_main geo0 (db_loaded []) = (None, c)"
    and tbl: "attributes_minimal (committed c) = [rowA, set_geo hit0 rowB]"
    by (simp add: sample_geo_loaded)
  from geo_update_frame [OF run]
  have frame: "list_all2 (\<lambda>r r'. same_but_geo r r'
        \<and> (a_id r \<notin> u_id ` set (geo_updates geo0 (db_loaded [])) \<longrightarrow> r' = r))
      (attributes_minimal (db_loaded [])) (attributes_minimal (committed c))"
    and rest: "events_minimal (committed c) = events_minimal (db_loaded [])"
      "attribute_correlations (committed c) = attribute_correlations (db_loaded [])"
      "sync_state (committed c) = sync_state (db_loaded [])"
    by simp_all
  from frame have "list_all2 same_but_geo (attributes_minimal (db_loaded [])) (attributes_minimal (committed c))"
    by (rule list_all2_mono) simp
  then have 1: "list_all2 same_but_geo [rowA, rowB] (attributes_minimal (committed c))"
    by (simp add: db_loaded_def)
  from frame have "a_id (attributes_minimal (db_loaded []) ! 0)
        \<notin> u_id ` set (geo_updates geo0 (db_loaded []))
      \<longrightarrow> attributes_minimal (committed c) ! 0 = attributes_minimal (db_loaded []) ! 0"
    by (rule list_all2_nthD [THEN conjunct2]) (simp add: db_loaded_def)
  then have 2: "attributes_minimal (committed c) ! 0 = rowA"
    by (simp add: sample_geo_updates_loaded) (simp add: db_loaded_def rowA_def)
  have 3: "country_name (attributes_minimal (committed c) ! 1) = Some ''Exampleland''"
    by (simp add: tbl set_geo_def hit0_def)
  from run 1 2 3 rest show ?thesis
    by (intro exI [of _ c]) (simp add: db_loaded_def)
qed

text \<open>
  C3. A second run of the full backfill against the same source data leaves
  \<^verbatim>\<open>events_minimal\<close> and \<^verbatim>\<open>attribute_correlations\<close> as the first run left them: when
  a run has completed, a run on what it committed, with the same answers of the platform
  (whatever its clock and the faults of its connection are), ends, and commits the same
  two tables. And no run of the backfill or of the sync script overwrites or removes an
  event row: the committed event table starts with the rows that were there.
\<close>

theorem backfill_twice_same_events_and_correlations:
  "(backfill_main L W d = Some (None, c1)
      \<and> post_attributes_page W' = post_attributes_page W \<and> post_event W' = post_event W
    \<longrightarrow> (\<exists>err2 c2. backfill_main L W' (committed c1) = Some (err2, c2)
          \<and> events_minimal (committed c2) = events_minimal (committed c1)
          \<and> attribute_correlations (committed c2) = attribute_correlations (committed c1)))
   \<and> (run_script s L W d = Some (err, c)
        \<longrightarrow> prefix (events_minimal d) (events_minimal (committed c)))"
proof (intro conjI impI)
  assume "backfill_main L W d = Some (None, c1)
      \<and> post_attributes_page W' = post_attributes_page W \<and> post_event W' = post_event W"
  then have run1: "backfill_main L W d = Some (None, c1)"
    and pages: "post_attributes_page W' = post_attributes_page W"
    and events: "post_event W' = post_event W"
    by simp_all
  from run1 obtain attrs iv evs em eps erows cps rows where
    attrs: "fetch_all_attributes W = Some (Inr attrs)"
    and first: "prepare L W attrs = Inr (iv, evs, em)" "evt_params L evs = Inr eps"
      "mapE (event_row_of L) eps = Inr erows" "corr_params L attrs = Inr cps"
    and "write_csv L em iv attrs = Inr rows"
    and d1: "events_minimal (committed c1) = fold insert_event erows (events_minimal d)"
      "attribute_correlations (committed c1) = fold insert_corr cps (attribute_correlations d)"
    and "attributes_minimal (committed c1) = attributes_minimal d @ rows"
    by (rule backfill_success)
  have attrs': "fetch_all_attributes W' = Some (Inr attrs)"
    using attrs pages by (simp add: fetch_all_attributes_def)
  obtain err2 c2 where pipe2: "pipeline L W' CSV_CHUNK_backfill attrs (connect (committed c1)) = (err2, c2)"
    by (cases "pipeline L W' CSV_CHUNK_backfill attrs (connect (committed c1))")
  have run2: "backfill_main L W' (committed c1) = Some (err2, c2)"
    using attrs' pipe2 by (simp add: backfill_main_def)
  have first': "prepare L W' attrs = Inr (iv, evs, em)"
    using first(1) by (simp add: prepare_world [OF events])
  have "upserts_same (committed c1) (connect (committed c1))"
    by (simp add: upserts_same_def connect_def)
  with first' first(2,3,4) d1 pipe2 have "upserts_same (committed c1) c2"
    by (rule pipeline_second_run)
  with run2 show "\<exists>err2 c2. backfill_main L W' (committed c1) = Some (err2, c2)
          \<and> events_minimal (committed c2) = events_minimal (committed c1)
          \<and> attribute_correlations (committed c2) = attribute_correlations (committed c1)"
    by (auto simp: upserts_same_def)
next
  assume "run_script s L W d = Some (err, c)"
  then show "prefix (events_minimal d) (events_minimal (committed c))"
  proof (cases rule: run_script_cases)
    case early
    then show ?thesis by simp
  next
    case (pipeline attrs c0)
    have "events_kept d c0"
      using pipeline(2,3) by (simp add: events_kept_def)
    with pipeline(5) have "events_kept d c"
      by (rule pipeline_events_kept)
    then show ?thesis by (simp add: events_kept_def)
  qed
qed

theorem backfill_twice_same_events_and_correlations_witness:
  "\<exists>c1 err2 c2.
      backfill_main lib0 (world0 (\<lambda>k. False) 1700000000000000) (db0 [(1, None)]) = Some (None, c1)
      \<and> events_minimal (committed c1) = [row10] \<and> attribute_correlations (committed c1) = [edgeAB]
      \<and> backfill_main lib0 (world0 (\<lambda>k. k = 5) 1800000000000000) (committed c1) = Some (err2, c2)
      \<and> events_minimal (committed c2) = [row10] \<and> attribute_correlations (committed c2) = [edgeAB]
      \<and> prefix (events_minimal (db0 [(1, None)])) (events_minimal (committed c1))"
proof -
  let ?W = "world0 (\<lambda>k. False) 1700000000000000" and ?W' = "world0 (\<lambda>k. k = 5) 1800000000000000"
  obtain c1 where run1: "backfill_main lib0 ?W (db0 [(1, None)]) = Some (None, c1)"
    and tables: "events_minimal (committed c1) = [row10]" "attribute_correlations (committed c1) = [edgeAB]"
    using sample_backfill_ok [of 1700000000000000 "[(1, None)]"] by auto
  have same: "post_attributes_page ?W' = post_attributes_page ?W" "post_event ?W' = post_event ?W"
    by (simp_all add: world0_def)
  from backfill_twice_same_events_and_correlations
    [of lib0 ?W "db0 [(1, None)]" c1 ?W' Backfill None c1] run1 same
  obtain err2 c2 where run2: "backfill_main lib0 ?W' (committed c1) = Some (err2, c2)"
    and eq: "events_minimal (committed c2) = events_minimal (committed c1)"
      "attribute_correlations (committed c2) = attribute_correlations (committed c1)"
    and pre: "prefix (events_minimal (db0 [(1, None)])) (events_minimal (committed c1))"
    by (auto simp: run_script_def)
  with run1 tables show ?thesis by auto
qed

text \<open>
  C4. The bulk load enforces no uniqueness on the attribute id: \<^verbatim>\<open>COPY\<close> appends. When a
  run of the backfill has completed, and a run on what it committed, with the same answers
  of the platform, completes too, the attribute table holds, after the rows the first run
  found, the staged rows of all fetched attributes twice; so, when any attribute was
  fetched, it holds a row more than once.
\<close>

theorem backfill_twice_duplicates_attributes:
  assumes "backfill_main L W d = Some (None, c1)"
    and "post_attributes_page W' = post_attributes_page W" and "post_event W' = post_event W"
    and "backfill_main L W' (committed c1) = Some (None, c2)"
  shows "\<exists>attrs rows. fetch_all_attributes W = Some (Inr attrs) \<and> length rows = length attrs
           \<and> attributes_minimal (committed c1) = attributes_minimal d @ rows
           \<and> attributes_minimal (committed c2) = attributes_minimal d @ rows @ rows
           \<and> (attrs \<noteq> [] \<longrightarrow> \<not> distinct (attributes_minimal (committed c2)))"
proof -
  from assms(1) obtain attrs iv evs em eps erows cps rows where
    attrs: "fetch_all_attributes W = Some (Inr attrs)"
    and p1: "prepare L W attrs = Inr (iv, evs, em)" and "evt_params L evs = Inr eps"
      "mapE (event_row_of L) eps = Inr erows" "corr_params L attrs = Inr cps"
    and rows: "write_csv L em iv attrs = Inr rows"
    and "events_minimal (committed c1) = fold insert_event erows (events_minimal d)"
      "attribute_correlations (committed c1) = fold insert_corr cps (attribute_correlations d)"
    and t1: "attributes_minimal (committed c1) = attributes_minimal d @ rows"
    by (rule backfill_success)
  from assms(4) obtain attrs' iv' evs' em' eps' erows' cps' rows' where
    attrs': "fetch_all_attributes W' = Some (Inr attrs')"
    and p2: "prepare L W' attrs' = Inr (iv', evs', em')" and "evt_params L evs' = Inr eps'"
      "mapE (event_row_of L) eps' = Inr erows'" "corr_params L attrs' = Inr cps'"
    and rows': "write_csv L em' iv' attrs' = Inr rows'"
    and "events_minimal (committed c2) = fold insert_event erows' (events_minimal (committed c1))"
      "attribute_correlations (committed c2) = fold insert_corr cps' (attribute_correlations (committed c1))"
    and t2: "attributes_minimal (committed c2) = attributes_minimal (committed c1) @ rows'"
    by (rule backfill_success)
  from attrs attrs' assms(2) have same: "attrs' = attrs"
    by (simp add: fetch_all_attributes_def)
  from p1 p2 same have "iv' = iv" "em' = em"
    by (simp_all add: prepare_world [OF assms(3)])
  with rows rows' same have "rows' = rows" by simp
  with t1 t2 have t2': "attributes_minimal (committed c2) = attributes_minimal d @ rows @ rows"
    by simp
  have len: "length rows = length attrs"
    using rows by (simp add: write_csv_def mapE_length)
  have "\<not> distinct (attributes_minimal (committed c2))" if "attrs \<noteq> []"
  proof -
    from that len have "rows \<noteq> []" by auto
    then have "\<not> distinct (rows @ rows)" by (cases rows) auto
    then show ?thesis by (simp add: t2')
  qed
  with attrs len t1 t2' show ?thesis by blast
qed

theorem backfill_twice_duplicates_attributes_witness:
  "\<exists>c1 c2.
      backfill_main lib0 (world0 (\<lambda>k. False) 1700000000000000) (db0 [(1, None)]) = Some (None, c1)
      \<and> backfill_main lib0 (world0 (\<lambda>k. False) 1800000000000000) (committed c1) = Some (None, c2)
      \<and> attributes_minimal (committed c1) = [rowA, rowB]
      \<and> attributes_minimal (committed c2) = [rowA, rowB, rowA, rowB]
      \<and> \<not> distinct (attributes_minimal (committed c2))"
proof -
  let ?W = "world0 (\<lambda>k. False) 1700000000000000" and ?W' = "world0 (\<lambda>k. False) 1800000000000000"
  obtain c1 where run1: "backfill_main lib0 ?W (db0 [(1, None)]) = Some (None, c1)"
    and t1: "attributes_minimal (committed c1) = [rowA, rowB]"
    using sample_backfill_ok [of 1700000000000000 "[(1, None)]"] by auto
  obtain c2 where run2: "backfill_main lib0 ?W' (committed c1) = Some (None, c2)"
    using sample_backfill_again [of 1800000000000000 "committed c1"] by auto
  have same: "post_attributes_page ?W' = post_attributes_page ?W" "post_event ?W' = post_event ?W"
    by (simp_all add: world0_def)
  from backfill_twice_duplicates_attributes [OF run1 same run2] t1
  have "attributes_minimal (committed c2) = [rowA, rowB, rowA, rowB]"
    "\<not> distinct (attributes_minimal (committed c2))"
    by (auto simp: sample_fetch db0_def)
  with run1 run2 t1 show ?thesis by blast
qed

text \<open>
  C5. The load of \<open>N\<close> attribute rows in chunks of \<open>n\<close> makes one \<^verbatim>\<open>COPY\<close> for each chunk,
  followed by a commit: on a connection that does not fail, with attributes that all
  stage, the load ends without an exception, what it adds to the log is, chunk after chunk
  of the staged rows, the \<^verbatim>\<open>COPY\<close> of the chunk and a commit, and the sizes of the copies
  are \<open>N div n\<close> times \<open>n\<close>, then \<open>N mod n\<close> when that is not 0: \<open>(N + n - 1) div n\<close> copies.
  After the commit of the \<open>k\<close>-th chunk the load is at a connection \<open>ck\<close> from which the
  remaining chunks are loaded, and whose committed attribute table is the table at the
  start followed by the first \<open>k * n\<close> staged rows: a process that ends there leaves
  exactly these rows.
\<close>

theorem load_attributes_in_chunks:
  assumes "0 < n" and "\<forall>k. \<not> db_fault W k" and "write_csv L em iv attrs = Inr rows"
  shows "\<exists>c'. load_attributes L W n em iv attrs c = (None, c')
           \<and> oplog c' = oplog c @ concat (map (\<lambda>chunk. [OpCopy chunk, OpCommit]) (chunked n rows))
           \<and> copy_sizes (oplog c') = copy_sizes (oplog c) @ chunk_sizes (length attrs) n
           \<and> length (chunk_sizes (length attrs) n) = (length attrs + n - 1) div n
           \<and> (\<forall>k. 1 \<le> k \<and> k \<le> (length attrs + n - 1) div n \<longrightarrow>
                (\<exists>ck. load_chunks L W em iv (take k (chunked n attrs)) c = (None, ck)
                   \<and> load_chunks L W em iv (drop k (chunked n attrs)) ck = (None, c')
                   \<and> attributes_minimal (committed ck)
                       = attributes_minimal (working c) @ take (k * n) rows))"
proof -
  from assms obtain c' where run: "load_attributes L W n em iv attrs c = (None, c')"
    and log: "oplog c' = oplog c @ concat (map (\<lambda>chunk. [OpCopy chunk, OpCommit]) (chunked n rows))"
    by (rule load_attributes_ok)
  have len: "length rows = length attrs"
    using assms(3) by (simp add: write_csv_def mapE_length)
  have sizes: "copy_sizes (oplog c') = copy_sizes (oplog c) @ chunk_sizes (length attrs) n"
    by (simp add: log copy_sizes_append copy_sizes_chunks map_length_chunked assms(1) len)
  have count: "length (chunk_sizes (length attrs) n) = (length attrs + n - 1) div n"
    using assms(1) by (rule length_chunk_sizes)
  from run assms(1) have run': "load_chunks L W em iv (chunked n attrs) c = (None, c')"
    by (simp add: load_attributes_def)
  have "\<exists>ck. load_chunks L W em iv (take k (chunked n attrs)) c = (None, ck)
           \<and> load_chunks L W em iv (drop k (chunked n attrs)) ck = (None, c')
           \<and> attributes_minimal (committed ck) = attributes_minimal (working c) @ take (k * n) rows"
    if "1 \<le> k \<and> k \<le> (length attrs + n - 1) div n" for k
  proof -
    from that have "1 \<le> k" "k \<le> length (chunked n attrs)"
      by (simp_all add: length_chunked assms(1))
    with assms(1) run' assms(3) show ?thesis by (rule load_chunks_after)
  qed
  with run log sizes count show ?thesis by blast
qed

theorem load_attributes_in_chunks_witness:
  "\<exists>c' ck.
      load_attributes lib0 (world0 (\<lambda>k. False) 1700000000000000) 100000 event_map0 id_to_value0
          (replicate 250000 attrB) (connect (db0 [])) = (None, c')
      \<and> copy_sizes (oplog c') = [100000, 100000, 50000]
      \<and> load_chunks lib0 (world0 (\<lambda>k. False) 1700000000000000) event_map0 id_to_value0
          (take 2 (chunked 100000 (replicate 250000 attrB))) (connect (db0 [])) = (None, ck)
      \<and> length (attributes_minimal (committed ck)) = 200000"
proof -
  let ?W = "world0 (\<lambda>k. False) 1700000000000000"
  let ?attrs = "replicate 250000 attrB" and ?rows = "replicate 250000 rowB"
  have nofault: "\<forall>k. \<not> db_fault ?W k" by simp
  have rows: "write_csv lib0 event_map0 id_to_value0 ?attrs = Inr ?rows"
    unfolding write_csv_def using sample_csv_rowB by (rule mapE_replicate)
  from load_attributes_in_chunks [OF _ nofault rows, of 100000 "connect (db0 [])"]
  obtain c' where run: "load_attributes lib0 ?W 100000 event_map0 id_to_value0 ?attrs (connect (db0 [])) = (None, c')"
    and sizes: "copy_sizes (oplog c') = copy_sizes (oplog (connect (db0 []))) @ chunk_sizes (length ?attrs) 100000"
    and after: "\<forall>k. 1 \<le> k \<and> k \<le> (length ?attrs + 100000 - 1) div 100000 \<longrightarrow>
        (\<exists>ck. load_chunks lib0 ?W event_map0 id_to_value0 (take k (chunked 100000 ?attrs)) (connect (db0 [])) = (None, ck)
           \<and> load_chunks lib0 ?W event_map0 id_to_value0 (drop k (chunked 100000 ?attrs)) ck = (None, c')
           \<and> attributes_minimal (committed ck)
               = attributes_minimal (working (connect (db0 []))) @ take (k * 100000) ?rows)"
    by auto
  have s: "copy_sizes (oplog c') = [100000, 100000, 50000]"
    using sizes by (simp add: connect_def copy_sizes_def chunk_sizes_def numeral_2_eq_2)
  have "(1::nat) \<le> 2 \<and> 2 \<le> (length ?attrs + 100000 - 1) div 100000" by simp
  with after obtain ck where
    ck: "load_chunks lib0 ?W event_map0 id_to_value0 (take 2 (chunked 100000 ?attrs)) (connect (db0 [])) = (None, ck)"
    and tbl: "attributes_minimal (committed ck)
        = attributes_minimal (working (connect (db0 []))) @ take (2 * 100000) ?rows"
    by blast
  from tbl have "length (attributes_minimal (committed ck)) = 200000"
    by (simp add: connect_def db0_def)
  with run s ck show ?thesis by blast
qed




end
